theory Spec2Isabelle
  imports Main
begin

section \<open>Python strings\<close>

text \<open>
  A Python \<open>str\<close> is modelled as a \<^typ>\<open>string\<close>; one \<^typ>\<open>char\<close> stands for one
  code point in the range 0..255. The functions below are the \<open>str\<close> methods that
  \<open>agent.py\<close> and \<open>tools/base.py\<close> call, on that range.
\<close>

text \<open>\<open>c.isspace()\<close>: the code points below 256 that Python counts as whitespace.\<close>

definition py_isspace :: "char \<Rightarrow> bool" where
  "py_isspace c = (of_char c \<in> {9, 10, 11, 12, 13, 28, 29, 30, 31, 32, 133, 160 :: nat})"

text \<open>\<open>s.strip()\<close>: leading and trailing whitespace removed.\<close>

definition py_strip :: "string \<Rightarrow> string" where
  "py_strip s = rev (dropWhile py_isspace (rev (dropWhile py_isspace s)))"

text \<open>\<open>c.lower()\<close> on one code point below 256: A-Z and the accented capitals
  0xC0..0xDE (without the multiplication sign 0xD7) move up by 32.\<close>

definition py_lower_char :: "char \<Rightarrow> char" where
  "py_lower_char c =
     (let n = (of_char c :: nat)
      in if (65 \<le> n \<and> n \<le> 90) \<or> (192 \<le> n \<and> n \<le> 222 \<and> n \<noteq> 215)
         then char_of (n + 32) else c)"

definition py_lower :: "string \<Rightarrow> string" where
  "py_lower s = map py_lower_char s"

text \<open>\<open>s.startswith(p)\<close>.\<close>

fun startswith :: "string \<Rightarrow> string \<Rightarrow> bool" where
  "startswith s [] = True"
| "startswith [] (p # ps) = False"
| "startswith (c # cs) (p # ps) = (c = p \<and> startswith cs ps)"

text \<open>\<open>sub in s\<close>.\<close>

fun contains :: "string \<Rightarrow> string \<Rightarrow> bool" where
  "contains [] sub = (sub = [])"
| "contains (c # cs) sub = (startswith (c # cs) sub \<or> contains cs sub)"

text \<open>
  \<open>s.split(sep)\<close> scans from the left and cuts at every occurrence of \<open>sep\<close> that
  does not overlap the previous cut; \<open>acc\<close> holds the current piece, reversed.
  Python raises ValueError on an empty separator; every call in the source passes a
  non-empty literal, and only that case is modelled.
\<close>

fun split_from :: "string \<Rightarrow> string \<Rightarrow> string \<Rightarrow> string list" where
  "split_from sep acc [] = [rev acc]"
| "split_from sep acc (c # cs) =
     (if startswith (c # cs) sep
      then rev acc # split_from sep [] (drop (length sep - 1) cs)
      else split_from sep (c # acc) cs)"

definition py_split :: "string \<Rightarrow> string \<Rightarrow> string list" where
  "py_split s sep = split_from sep [] s"

text \<open>\<open>s.replace(old, new)\<close> for a non-empty \<open>old\<close>: every occurrence found by the
  same left-to-right scan is replaced.\<close>

fun py_replace :: "string \<Rightarrow> string \<Rightarrow> string \<Rightarrow> string" where
  "py_replace [] old new = []"
| "py_replace (c # cs) old new =
     (if startswith (c # cs) old
      then new @ py_replace (drop (length old - 1) cs) old new
      else c # py_replace cs old new)"

text \<open>\<open>sep.join(xs)\<close>.\<close>

fun py_join :: "string \<Rightarrow> string list \<Rightarrow> string" where
  "py_join sep [] = []"
| "py_join sep [x] = x"
| "py_join sep (x # y # ys) = x @ sep @ py_join sep (y # ys)"

text \<open>
  \<open>repr(s)\<close> of a \<open>str\<close>: the quote is \<open>'\<close> unless the text has a \<open>'\<close> and no \<open>"\<close>;
  the quote and the backslash are escaped, tab, newline and carriage return get their
  letter escapes, and every other code point that is not printable is written \<open>\xhh\<close>.
\<close>

definition hex_digit :: "nat \<Rightarrow> char" where
  "hex_digit n = ''0123456789abcdef'' ! (n mod 16)"

definition py_isprintable :: "char \<Rightarrow> bool" where
  "py_isprintable c =
     (let n = (of_char c :: nat)
      in (32 \<le> n \<and> n < 127) \<or> (161 \<le> n \<and> n \<noteq> 173))"

definition repr_char :: "char \<Rightarrow> char \<Rightarrow> string" where
  "repr_char quote c =
     (if c = quote \<or> c = CHR 0x5C then [CHR 0x5C, c]
      else if c = CHR 0x09 then [CHR 0x5C, CHR ''t'']
      else if c = CHR 0x0A then [CHR 0x5C, CHR ''n'']
      else if c = CHR 0x0D then [CHR 0x5C, CHR ''r'']
      else if py_isprintable c then [c]
      else [CHR 0x5C, CHR ''x'', hex_digit (of_char c div 16), hex_digit (of_char c)])"

definition py_repr :: "string \<Rightarrow> string" where
  "py_repr s =
     (let quote = (if CHR 0x27 \<in> set s \<and> CHR 0x22 \<notin> set s then CHR 0x22 else CHR 0x27)
      in [quote] @ concat (map (repr_char quote) s) @ [quote])"

text \<open>\<open>str(xs)\<close> of a list of \<open>str\<close>.\<close>

definition py_repr_list :: "string list \<Rightarrow> string" where
  "py_repr_list xs = ''['' @ py_join '', '' (map py_repr xs) @ '']''"

text \<open>The text an f-string puts for a value that is \<open>None\<close> or a \<open>str\<close>.\<close>

fun py_format :: "string option \<Rightarrow> string" where
  "py_format None = ''None''"
| "py_format (Some s) = s"

text \<open>Truth value of an optional \<open>str\<close>: \<open>None\<close> and the empty string are false.\<close>

fun truthy :: "string option \<Rightarrow> bool" where
  "truthy None = False"
| "truthy (Some s) = (s \<noteq> [])"

section \<open>Python dictionaries\<close>

text \<open>
  A \<open>dict\<close> keeps its keys in insertion order and the order is visible
  (\<open>list(self.tools.keys())\<close> is printed), so it is an association list with
  distinct keys. Storing under a key that is present replaces the value in place.
\<close>

type_synonym ('k, 'v) py_dict = "('k \<times> 'v) list"

fun dict_setitem :: "('k, 'v) py_dict \<Rightarrow> 'k \<Rightarrow> 'v \<Rightarrow> ('k, 'v) py_dict" where
  "dict_setitem [] k v = [(k, v)]"
| "dict_setitem ((k', v') # d) k v =
     (if k' = k then (k, v) # d else (k', v') # dict_setitem d k v)"

text \<open>\<open>dict(pairs)\<close>: the pairs are stored one after the other.\<close>

definition dict_of :: "('k \<times> 'v) list \<Rightarrow> ('k, 'v) py_dict" where
  "dict_of pairs = foldl (\<lambda>d (k, v). dict_setitem d k v) [] pairs"

definition dict_get :: "('k, 'v) py_dict \<Rightarrow> 'k \<Rightarrow> 'v option" where
  "dict_get d k = map_of d k"

definition dict_keys :: "('k, 'v) py_dict \<Rightarrow> 'k list" where
  "dict_keys d = map fst d"

section \<open>Tools (\<open>tools/base.py\<close>)\<close>

text \<open>
  An exception is the text that \<open>str(e)\<close> gives. The argument a tool receives is the
  raw text or, when \<open>json.loads\<close> accepts the text, the decoded value; the type \<open>'j\<close>
  of decoded values is left open. A tool's \<open>run\<close> may read and change the outside world
  (a database, the network), of type \<open>'w\<close>, and may raise.
\<close>

datatype exn = Exception string

datatype 'j tool_arg = Raw string | Structured 'j

record ('j, 'w) health_tool =
  name :: string
  description :: string
  arg :: string
  run :: "'j tool_arg \<Rightarrow> 'w \<Rightarrow> (exn + string) \<times> 'w"

text \<open>\<open>HealthTool.model_post_init\<close> runs on every constructed tool.\<close>

definition model_post_init :: "('j, 'w) health_tool \<Rightarrow> ('j, 'w) health_tool" where
  "model_post_init t =
     t\<lparr>name := py_replace (py_lower (name t)) '' '' ''_'',
       description := py_lower (description t),
       arg := py_lower (arg t)\<rparr>"

definition get_tool_description :: "('j, 'w) health_tool \<Rightarrow> string" where
  "get_tool_description t =
     ''Tool: '' @ name t @ ''\<newline>Description: '' @ description t @ ''\<newline>Arg: '' @ arg t"

section \<open>The agent (\<open>agent.py\<close>)\<close>

text \<open>A message is the dictionary \<open>{"role": ..., "content": ...}\<close>.\<close>

record message =
  role :: string
  content :: string

datatype provider = Gemini | OpenAI

record ('j, 'w) agent =
  llm_provider :: provider
  tools :: "(string, ('j, 'w) health_tool) py_dict"
  health_prompt :: string
  messages :: "message list"
  patient_id :: "string option"

text \<open>
  What the agent calls outside the repository: \<open>json.loads\<close> (\<open>None\<close> when it
  raises), the Gemini call \<open>generate_content(full_prompt).text\<close> and the OpenAI call
  \<open>chat.completions.create(...).choices[0].message.content\<close>. Both calls may raise
  and may change the world.
\<close>

record ('j, 'w) externals =
  json_loads :: "string \<Rightarrow> 'j option"
  gemini_generate :: "string \<Rightarrow> 'w \<Rightarrow> (exn + string) \<times> 'w"
  openai_create :: "message list \<Rightarrow> 'w \<Rightarrow> (exn + string) \<times> 'w"

text \<open>\<open>HEALTH_AGENT_SYSTEM_PROMPT.format(tools=..., tool_names=...)\<close>.\<close>

definition HEALTH_AGENT_SYSTEM_PROMPT :: "string \<Rightarrow> string \<Rightarrow> string" where
  "HEALTH_AGENT_SYSTEM_PROMPT tools_text tool_names = py_join ''\<newline>''
     ['''',
      ''You are HealthGuard, an AI healthcare assistant designed to help patients manage their health.'',
      ''You have access to the following specialized healthcare tools:'',
      '''',
      tools_text,
      '''',
      ''Always prioritize patient safety and well-being. Never provide medical diagnoses or replace professional medical advice.'',
      ''Instead, focus on:'',
      ''1. Helping patients track their medications and symptoms'',
      ''2. Providing reliable health information from trusted sources'',
      ''3. Offering general wellness suggestions'',
      ''4. Organizing and visualizing health data'',
      '''',
      ''For any serious health concerns, always recommend consulting a healthcare professional.'',
      '''',
      ''Use the following format:'',
      '''',
      ''Patient: the patient's question or request'',
      ''Thought: carefully consider the appropriate action to take'',
      ''Action: the action to take, should be one of ['' @ tool_names @ '']'',
      ''Action Input: the input for the tool'',
      ''Observation: the result of the action'',
      ''... (this Thought/Action/Action Input/Observation can repeat as needed)'',
      ''Thought: I now know how to respond to the patient'',
      ''Response: your helpful, empathetic response to the patient'',
      '''',
      ''Begin!'',
      '''']"

text \<open>\<open>_format_tools\<close>: the tools indexed by name.\<close>

definition format_tools ::
  "('j, 'w) health_tool list \<Rightarrow> (string, ('j, 'w) health_tool) py_dict" where
  "format_tools ts = (let tool_names = map name ts in dict_of (zip tool_names ts))"

text \<open>
  \<open>__init__\<close>. \<open>environ\<close> is \<open>os.environ\<close>; the constructor raises ValueError when
  neither API key is set to a non-empty text. An absent or empty \<open>system_prompt\<close>
  selects the formatted health prompt. The \<open>health_prompt\<close> argument is at its default,
  as in every construction in the repository, and the client objects are left out:
  the provider calls are in \<open>externals\<close>.
\<close>

definition init ::
  "(string \<Rightarrow> string option) \<Rightarrow> ('j, 'w) health_tool list \<Rightarrow> string option \<Rightarrow> string option
     \<Rightarrow> exn + ('j, 'w) agent" where
  "init environ ts system_prompt pid =
     (let hp = HEALTH_AGENT_SYSTEM_PROMPT
                 (py_join ''\<newline>\<newline>'' (map get_tool_description ts))
                 (py_join '', '' (map name ts));
          mk = (\<lambda>p. \<lparr>llm_provider = p, tools = format_tools ts, health_prompt = hp,
                      messages = [\<lparr>role = ''system'',
                                   content = (if truthy system_prompt then the system_prompt else hp)\<rparr>],
                      patient_id = pid\<rparr>)
      in if truthy (environ ''GOOGLE_API_KEY'') then Inr (mk Gemini)
         else if truthy (environ ''OPENAI_API_KEY'') then Inr (mk OpenAI)
         else Inl (Exception ''Neither GOOGLE_API_KEY nor OPENAI_API_KEY environment variables are set''))"

subsection \<open>Parsing a completion\<close>

text \<open>
  The loop of \<open>_parse_action_string\<close> over the lines, with its three variables
  \<open>action\<close>, \<open>action_input\<close> and \<open>is_action_input\<close> as the state.
\<close>

fun parse_lines ::
  "string list \<Rightarrow> string option \<times> string list \<times> bool \<Rightarrow> string option \<times> string list \<times> bool" where
  "parse_lines [] st = st"
| "parse_lines (line # lines) (action, action_input, is_action_input) =
     (if startswith line ''Action:''
      then parse_lines lines
             (Some (py_strip (py_replace line ''Action:'' '''')), action_input, is_action_input)
      else if startswith line ''Action Input:''
      then (let input_text = py_strip (py_replace line ''Action Input:'' '''')
            in parse_lines lines
                 (action, (if input_text \<noteq> [] then action_input @ [input_text] else action_input),
                  True))
      else if startswith line ''Observation:''
      then parse_lines lines (action, action_input, False)
      else if is_action_input \<and> py_strip line \<noteq> []
      then parse_lines lines (action, action_input @ [py_strip line], is_action_input)
      else parse_lines lines (action, action_input, is_action_input))"

text \<open>The \<open>try: json.loads ... except: pass\<close> at the end of the parser.\<close>

definition decode_input :: "('j, 'w) externals \<Rightarrow> string \<Rightarrow> 'j tool_arg" where
  "decode_input ext s = (case json_loads ext s of Some j \<Rightarrow> Structured j | None \<Rightarrow> Raw s)"

definition parse_action_string ::
  "('j, 'w) externals \<Rightarrow> string \<Rightarrow> string option \<times> 'j tool_arg" where
  "parse_action_string ext text =
     (case parse_lines (py_split text ''\<newline>'') (None, [], False) of
        (action, action_input, is_action_input) \<Rightarrow>
          (action, decode_input ext (py_join ''\<newline>'' action_input)))"

subsection \<open>Dispatch\<close>

definition tool_call ::
  "('j, 'w) externals \<Rightarrow> ('j, 'w) agent \<Rightarrow> string \<Rightarrow> 'w \<Rightarrow> string \<times> 'w" where
  "tool_call ext a response w =
     (case parse_action_string ext response of
        (action, action_input) \<Rightarrow>
          (case (if truthy action then dict_get (tools a) (py_lower (py_strip (the action))) else None) of
             Some t \<Rightarrow>
               (case run t action_input w of
                  (Inr tool_observation, w') \<Rightarrow> (''Observation: '' @ tool_observation, w')
                | (Inl (Exception e), w') \<Rightarrow>
                    (''Observation: There was an error executing the tool.\<newline>Error: '' @ e, w'))
           | None \<Rightarrow>
               (''Observation: Tool '' @ [CHR 0x27] @ py_format action @ [CHR 0x27]
                  @ '' not found. Available tools: '' @ py_repr_list (dict_keys (tools a)), w)))"

subsection \<open>The completion request\<close>

fun prompt_part :: "message \<Rightarrow> string list" where
  "prompt_part m =
     (if role m = ''system'' then [''System: '' @ content m]
      else if role m = ''user'' then [''User: '' @ content m]
      else if role m = ''assistant'' then [''Assistant: '' @ content m]
      else [])"

definition get_gemini_response ::
  "('j, 'w) externals \<Rightarrow> ('j, 'w) agent \<Rightarrow> 'w \<Rightarrow> (exn + string) \<times> 'w" where
  "get_gemini_response ext a w =
     gemini_generate ext (py_join ''\<newline>\<newline>'' (concat (map prompt_part (messages a)))) w"

definition get_openai_response ::
  "('j, 'w) externals \<Rightarrow> ('j, 'w) agent \<Rightarrow> 'w \<Rightarrow> (exn + string) \<times> 'w" where
  "get_openai_response ext a w =
     (case openai_create ext (messages a) w of
        (Inr c, w') \<Rightarrow> (Inr (py_strip c), w')
      | (Inl e, w') \<Rightarrow> (Inl e, w'))"

definition get_response ::
  "('j, 'w) externals \<Rightarrow> ('j, 'w) agent \<Rightarrow> 'w \<Rightarrow> (exn + string) \<times> 'w" where
  "get_response ext a w =
     (if llm_provider a = Gemini then get_gemini_response ext a w
      else get_openai_response ext a w)"

subsection \<open>The agent loop\<close>

definition append_message :: "('j, 'w) agent \<Rightarrow> string \<Rightarrow> string \<Rightarrow> ('j, 'w) agent" where
  "append_message a r c = a\<lparr>messages := messages a @ [\<lparr>role = r, content = c\<rparr>]\<rparr>"

text \<open>
  The \<open>while True\<close> of \<open>__call__\<close>. The result is \<open>None\<close> when the loop never
  leaves; otherwise it is the exception that left the loop or the returned text,
  with the agent and the world as they are then.
\<close>

partial_function (option) agent_loop ::
  "('j, 'w) externals \<Rightarrow> ('j, 'w) agent \<Rightarrow> 'w \<Rightarrow> ((exn + string) \<times> ('j, 'w) agent \<times> 'w) option" where
  "agent_loop ext a w =
     (case get_response ext a w of
        (Inl e, w1) \<Rightarrow> Some (Inl e, a, w1)
      | (Inr response, w1) \<Rightarrow>
          (let a1 = append_message a ''assistant'' response
           in if contains response ''Response:''
              then Some (Inr (py_strip (last (py_split response ''Response:''))), a1, w1)
              else if contains response ''Action:'' \<and> contains response ''Action Input:''
              then (case tool_call ext a1 response w1 of
                      (observation, w2) \<Rightarrow>
                        agent_loop ext (append_message a1 ''user'' observation) w2)
              else agent_loop ext a1 w1))"

text \<open>The completions on which neither test of the loop fires.\<close>

definition malformed :: "string \<Rightarrow> bool" where
  "malformed c \<longleftrightarrow>
     \<not> contains c ''Response:'' \<and> \<not> (contains c ''Action:'' \<and> contains c ''Action Input:'')"

definition apology :: string where
  "apology = ''I apologize, but I encountered a technical issue. Please try again or contact support if the problem persists.''"

text \<open>\<open>__call__\<close>: the user message, the loop, and the \<open>except Exception\<close> around it.\<close>

definition call ::
  "('j, 'w) externals \<Rightarrow> ('j, 'w) agent \<Rightarrow> string \<Rightarrow> 'w \<Rightarrow> (string \<times> ('j, 'w) agent \<times> 'w) option" where
  "call ext a prompt w =
     (case agent_loop ext (append_message a ''user'' (''Patient: '' @ prompt)) w of
        None \<Rightarrow> None
      | Some (Inr response, a', w') \<Rightarrow> Some (response, a', w')
      | Some (Inl e, a', w') \<Rightarrow> Some (apology, a', w'))"

definition get_conversation_history :: "('j, 'w) agent \<Rightarrow> message list" where
  "get_conversation_history a = messages a"

text \<open>\<open>clear_conversation\<close>; \<open>self.messages[0]\<close> raises IndexError on an empty list.\<close>

definition clear_conversation :: "('j, 'w) agent \<Rightarrow> exn + string \<times> ('j, 'w) agent" where
  "clear_conversation a =
     (case messages a of
        [] \<Rightarrow> Inl (Exception ''list index out of range'')
      | system_prompt # _ \<Rightarrow>
          Inr (''Conversation history cleared.'', a\<lparr>messages := [system_prompt]\<rparr>))"

subsection \<open>Lines, sections and contributions\<close>

text \<open>
  Notions in which the theorems say what \<open>parse_lines\<close> computes; the program does not
  use them. \<open>last_action\<close> reads the tool name off the last line that begins with
  \<open>Action:\<close>. \<open>contribution\<close> is the text one line adds to the action input while
  input is being collected: nothing for an \<open>Action:\<close> line, the trimmed rest of an
  \<open>Action Input:\<close> line, the trimmed line otherwise. An input section is an
  \<open>Action Input:\<close> line, the lines after it up to the next \<open>Action Input:\<close> or
  \<open>Observation:\<close> line, and then, if an \<open>Observation:\<close> line comes, the lines from
  there up to the next \<open>Action Input:\<close> line. \<open>sectioned\<close> cuts a list of lines into
  the lines before the first \<open>Action Input:\<close> line and the input sections.
\<close>

definition last_action :: "string list \<Rightarrow> string option" where
  "last_action ls =
     (case filter (\<lambda>x. startswith x ''Action:'') ls of
        [] \<Rightarrow> None
      | x # xs \<Rightarrow> Some (py_strip (py_replace (last (x # xs)) ''Action:'' '''')))"

definition contribution :: "string \<Rightarrow> string" where
  "contribution x =
     (if startswith x ''Action:'' then []
      else if startswith x ''Action Input:'' then py_strip (py_replace x ''Action Input:'' '''')
      else py_strip x)"

type_synonym input_section = "string \<times> string list \<times> string list"

fun section_lines :: "input_section \<Rightarrow> string list" where
  "section_lines (l, sect, idle) = l # sect @ idle"

fun section_text :: "input_section \<Rightarrow> string list" where
  "section_text (l, sect, idle) = filter (\<lambda>t. t \<noteq> []) (map contribution (l # sect))"

fun is_section :: "input_section \<Rightarrow> bool" where
  "is_section (l, sect, idle) \<longleftrightarrow>
     startswith l ''Action Input:''
     \<and> (\<forall>x\<in>set sect. \<not> startswith x ''Action Input:'' \<and> \<not> startswith x ''Observation:'')
     \<and> (idle = [] \<or> startswith (hd idle) ''Observation:'')
     \<and> (\<forall>x\<in>set idle. \<not> startswith x ''Action Input:'')"

definition sectioned :: "string list \<Rightarrow> string list \<Rightarrow> input_section list \<Rightarrow> bool" where
  "sectioned ls idle0 secs \<longleftrightarrow>
     ls = idle0 @ concat (map section_lines secs)
     \<and> (\<forall>x\<in>set idle0. \<not> startswith x ''Action Input:'')
     \<and> (\<forall>s\<in>set secs. is_section s)"


text \<open>The texts of all sections, joined by newlines.\<close>

definition input_text :: "input_section list \<Rightarrow> string" where
  "input_text secs = py_join ''\<newline>'' (concat (map section_text secs))"

section \<open>Example inputs\<close>

text \<open>
  Concrete tools, agents and providers on which the theorems below are run. The world
  is a counter of tool runs. \<open>ex_json_loads\<close> is \<open>json.loads\<close> on the texts that are a
  JSON object whose keys and values are string literals, written without whitespace
  and without escape sequences (the decoded value is the dictionary); it rejects every
  other text, and it is given below only texts of that kind and texts that
  \<open>json.loads\<close> rejects as well.
\<close>

fun json_string :: "string \<Rightarrow> (string \<times> string) option" where
  "json_string [] = None"
| "json_string (q # r) =
     (let body = takeWhile (\<lambda>c. c \<noteq> CHR 0x22) r; rest = dropWhile (\<lambda>c. c \<noteq> CHR 0x22) r
      in if q = CHR 0x22 \<and> rest \<noteq> [] \<and> (\<forall>c\<in>set body. c \<noteq> CHR 0x5C \<and> 32 \<le> (of_char c :: nat))
         then Some (body, tl rest) else None)"

fun json_members :: "nat \<Rightarrow> string \<Rightarrow> (string \<times> string) list option" where
  "json_members 0 s = None"
| "json_members (Suc n) s =
     (case json_string s of
        None \<Rightarrow> None
      | Some (k, r1) \<Rightarrow>
          (case r1 of
             [] \<Rightarrow> None
           | c # r2 \<Rightarrow>
               if c \<noteq> CHR '':'' then None
               else (case json_string r2 of
                       None \<Rightarrow> None
                     | Some (v, r3) \<Rightarrow>
                         (case r3 of
                            [] \<Rightarrow> None
                          | d # r4 \<Rightarrow>
                              if d = CHR ''}'' \<and> r4 = [] then Some [(k, v)]
                              else if d = CHR '','' then map_option ((#) (k, v)) (json_members n r4)
                              else None))))"

definition ex_json_loads :: "string \<Rightarrow> (string, string) py_dict option" where
  "ex_json_loads s =
     (case s of
        [] \<Rightarrow> None
      | c # r \<Rightarrow>
          if c \<noteq> CHR ''{'' then None
          else if r = ''}'' then Some []
          else map_option dict_of (json_members (length r) r))"

definition ex_tool :: "((string, string) py_dict, nat) health_tool" where
  "ex_tool = model_post_init
     \<lparr>name = ''Medication Tool'', description = ''Track medications'', arg = ''Request'',
      run = (\<lambda>x w. (Inr (case x of Raw s \<Rightarrow> ''text '' @ s
                              | Structured d \<Rightarrow> ''keys '' @ py_join '','' (dict_keys d)), Suc w))\<rparr>"

definition ex_agent :: "((string, string) py_dict, nat) agent" where
  "ex_agent = \<lparr>llm_provider = Gemini, tools = format_tools [ex_tool], health_prompt = ''hp'',
      messages = [\<lparr>role = ''system'', content = ''sys''\<rparr>], patient_id = None\<rparr>"

definition ex_llm :: "(string \<Rightarrow> nat \<Rightarrow> (exn + string) \<times> nat) \<Rightarrow> ((string, string) py_dict, nat) externals" where
  "ex_llm f = \<lparr>json_loads = ex_json_loads, gemini_generate = f,
      openai_create = (\<lambda>ms w. (Inl (Exception ''no client''), w))\<rparr>"

definition llm_down :: "string \<Rightarrow> nat \<Rightarrow> (exn + string) \<times> nat" where
  "llm_down p w = (Inl (Exception ''quota exceeded''), w)"

definition llm_final :: "string \<Rightarrow> nat \<Rightarrow> (exn + string) \<times> nat" where
  "llm_final p w = (Inr ''Action: medication_tool\<newline>Response: no Response: Take your pill at 8am. '', w)"

definition llm_stuck :: "string \<Rightarrow> nat \<Rightarrow> (exn + string) \<times> nat" where
  "llm_stuck p w = (Inr ''Thought: hmm'', w)"

definition ex_tool_dup :: "((string, string) py_dict, nat) health_tool" where
  "ex_tool_dup = model_post_init
     \<lparr>name = ''medication tool'', description = ''Another tracker'', arg = ''Request'',
      run = (\<lambda>x w. (Inl (Exception ''database is locked''), w))\<rparr>"

definition ex_environ :: "string \<Rightarrow> string option" where
  "ex_environ k = (if k = ''GOOGLE_API_KEY'' then Some ''key'' else None)"

definition llm_unknown :: "string \<Rightarrow> nat \<Rightarrow> (exn + string) \<times> nat" where
  "llm_unknown p w =
     (if contains p ''Observation:'' then (Inr ''Response: done'', w)
      else (Inr ''Action: unknown_tool\<newline>Action Input: x'', w))"

definition ex_tool_trailing :: "((string, string) py_dict, nat) health_tool" where
  "ex_tool_trailing = model_post_init
     \<lparr>name = ''Refill '', description = ''Order a refill'', arg = ''Request'',
      run = (\<lambda>x w. (Inr ''ordered'', Suc w))\<rparr>"

definition ex_tool_refill :: "((string, string) py_dict, nat) health_tool" where
  "ex_tool_refill = model_post_init
     \<lparr>name = ''refill'', description = ''Refill status'', arg = ''Request'',
      run = (\<lambda>x w. (Inr ''status shown'', Suc w))\<rparr>"

definition ex_agent_refill :: "((string, string) py_dict, nat) agent" where
  "ex_agent_refill = \<lparr>llm_provider = Gemini, tools = format_tools [ex_tool_trailing, ex_tool_refill],
      health_prompt = ''hp'', messages = [\<lparr>role = ''system'', content = ''sys''\<rparr>],
      patient_id = None\<rparr>"

definition ex_raw_tool :: "((string, string) py_dict, nat) health_tool" where
  "ex_raw_tool =
     \<lparr>name = ''Medication Tool'', description = ''Track medications'', arg = ''Request'',
      run = (\<lambda>x w. (Inr (case x of Raw s \<Rightarrow> ''text '' @ s
                              | Structured d \<Rightarrow> ''keys '' @ py_join '','' (dict_keys d)), Suc w))\<rparr>"

text \<open>
  \<open>ex_request\<close> is the JSON text \<open>{"action":"list","patient_id":"p1"}\<close>, and
  \<open>ex_agent_trailing\<close> has the tool named \<open>Refill \<close> alone.
\<close>

definition dq :: "string \<Rightarrow> string" where
  "dq s = [CHR 0x22] @ s @ [CHR 0x22]"

definition ex_request :: string where
  "ex_request = ''{'' @ dq ''action'' @ '':'' @ dq ''list'' @ '','' @ dq ''patient_id'' @ '':'' @ dq ''p1'' @ ''}''"

definition ex_agent_trailing :: "((string, string) py_dict, nat) agent" where
  "ex_agent_trailing = \<lparr>llm_provider = Gemini, tools = format_tools [ex_tool_trailing],
      health_prompt = ''hp'', messages = [\<lparr>role = ''system'', content = ''sys''\<rparr>],
      patient_id = None\<rparr>"

definition ex_raw_trailing :: "((string, string) py_dict, nat) health_tool" where
  "ex_raw_trailing =
     \<lparr>name = ''Refill '', description = ''Order a refill'', arg = ''Request'',
      run = (\<lambda>x w. (Inr ''ordered'', Suc w))\<rparr>"

section \<open>Facts about dictionaries and the tool registry\<close>

lemma map_of_dict_setitem: "map_of (dict_setitem d k v) = (map_of d)(k \<mapsto> v)"
  by (induction d k v rule: dict_setitem.induct) auto

lemma keys_dict_setitem:
  "map fst (dict_setitem d k v) = (if k \<in> set (map fst d) then map fst d else map fst d @ [k])"
  by (induction d k v rule: dict_setitem.induct) auto

lemma foldl_dict_setitem_map_of:
  "map_of (foldl (\<lambda>d (k, v). dict_setitem d k v) d ps) = map_of d ++ map_of (rev ps)"
proof (induction ps arbitrary: d)
  case Nil
  then show ?case by simp
next
  case (Cons p ps)
  obtain k v where p: "p = (k, v)" by (cases p)
  show ?case using Cons.IH[of "dict_setitem d k v"] p
    by (auto simp: map_of_dict_setitem map_add_def fun_eq_iff split: option.splits)
qed

lemma foldl_dict_setitem_keys:
  "distinct (map fst d) \<Longrightarrow>
   distinct (map fst (foldl (\<lambda>d (k, v). dict_setitem d k v) d ps))
   \<and> set (map fst (foldl (\<lambda>d (k, v). dict_setitem d k v) d ps)) = set (map fst d) \<union> set (map fst ps)"
proof (induction ps arbitrary: d)
  case Nil
  then show ?case by simp
next
  case (Cons p ps)
  obtain k v where p: "p = (k, v)" by (cases p)
  have "distinct (map fst (dict_setitem d k v))" using Cons.prems by (simp add: keys_dict_setitem)
  from Cons.IH[OF this] show ?case using p by (auto simp: keys_dict_setitem)
qed

lemma zip_names: "zip (map f xs) xs = map (\<lambda>x. (f x, x)) xs"
  by (induction xs) auto

lemma map_of_skip: "\<forall>t\<in>set xs. f t \<noteq> k \<Longrightarrow>
    map_of (map (\<lambda>t. (f t, t)) (xs @ ys)) k = map_of (map (\<lambda>t. (f t, t)) ys) k"
  by (induction xs) auto

lemma format_tools_get:
  "dict_get (format_tools ts) k = map_of (map (\<lambda>t. (name t, t)) (rev ts)) k"
  by (simp add: dict_get_def format_tools_def dict_of_def foldl_dict_setitem_map_of zip_names
      rev_map)

lemma format_tools_get_last:
  assumes "\<forall>t\<in>set ts3. name t \<noteq> name t2"
  shows "dict_get (format_tools (ts1 @ t2 # ts3)) (name t2) = Some t2"
proof -
  have "map_of (map (\<lambda>t. (name t, t)) (rev ts3 @ t2 # rev ts1)) (name t2) = Some t2"
    using assms by (subst map_of_skip) auto
  then show ?thesis unfolding format_tools_get by simp
qed

lemma format_tools_keys:
  "distinct (dict_keys (format_tools ts)) \<and> set (dict_keys (format_tools ts)) = name ` set ts"
  using foldl_dict_setitem_keys[of "[]" "zip (map name ts) ts"]
  by (simp add: dict_keys_def format_tools_def dict_of_def zip_names comp_def)

lemma name_ex_tool: "name ex_tool = ''medication_tool''"
  by code_simp

lemma name_ex_tool_dup: "name ex_tool_dup = ''medication_tool''"
  by code_simp

section \<open>Facts about the string functions\<close>

lemma startswith_iff: "startswith s p \<longleftrightarrow> (\<exists>r. s = p @ r)"
  by (induction s p rule: startswith.induct) auto

lemma startswith_append: "startswith (p @ r) p"
  by (simp add: startswith_iff)

lemma contains_iff: "contains s sub \<longleftrightarrow> (\<exists>pre post. s = pre @ sub @ post)"
proof (induction s)
  case Nil
  then show ?case by auto
next
  case (Cons c cs)
  show ?case
  proof
    assume "contains (c # cs) sub"
    then consider "startswith (c # cs) sub" | "contains cs sub" by auto
    then show "\<exists>pre post. c # cs = pre @ sub @ post"
    proof cases
      case 1
      then obtain r where "c # cs = sub @ r" by (auto simp: startswith_iff)
      then have "c # cs = [] @ sub @ r" by simp
      then show ?thesis by blast
    next
      case 2
      then obtain pre post where "cs = pre @ sub @ post" using Cons.IH by blast
      then have "c # cs = (c # pre) @ sub @ post" by simp
      then show ?thesis by blast
    qed
  next
    assume "\<exists>pre post. c # cs = pre @ sub @ post"
    then obtain pre post where e: "c # cs = pre @ sub @ post" by blast
    show "contains (c # cs) sub"
    proof (cases pre)
      case Nil
      then have "startswith (c # cs) sub" using e by (simp add: startswith_iff)
      then show ?thesis by simp
    next
      case (Cons p pre')
      then have "cs = pre' @ sub @ post" using e by simp
      then show ?thesis using Cons.IH by auto
    qed
  qed
qed

lemma py_replace_absent: "\<not> contains s old \<Longrightarrow> py_replace s old new = s"
  by (induction s) auto

lemma split_from_absent: "\<not> contains s sep \<Longrightarrow> sep \<noteq> [] \<Longrightarrow> split_from sep acc s = [rev acc @ s]"
  by (induction s arbitrary: acc) auto

lemma split_from_nonempty: "split_from sep acc s \<noteq> []"
  by (induction sep acc s rule: split_from.induct) auto

lemma py_strip_idem: "py_strip (py_strip s) = py_strip s"
proof -
  define t where "t = dropWhile py_isspace s"
  define u where "u = dropWhile py_isspace (rev t)"
  have s: "py_strip s = rev u" by (simp add: py_strip_def t_def u_def)
  have u: "u = [] \<or> \<not> py_isspace (hd u)"
    unfolding u_def using hd_dropWhile by blast
  have t: "t = [] \<or> \<not> py_isspace (hd t)"
    unfolding t_def using hd_dropWhile by blast
  have "dropWhile py_isspace (rev u) = rev u"
  proof (cases "u = []")
    case True
    then show ?thesis by simp
  next
    case False
    have "takeWhile py_isspace (rev t) @ u = rev t"
      unfolding u_def by simp
    then have "last u = last (rev t)" using False by (metis last_appendR)
    moreover have "t \<noteq> []" using False u_def by auto
    ultimately have "hd (rev u) = hd t" using False by (simp add: hd_rev last_rev)
    then show ?thesis using t \<open>t \<noteq> []\<close> False by (simp add: dropWhile_eq_self_iff)
  qed
  moreover have "dropWhile py_isspace u = u" using u by (simp add: dropWhile_eq_self_iff)
  ultimately show ?thesis unfolding s by (simp add: py_strip_def)
qed

lemma split_from_last:
  assumes "sep \<noteq> []" and "hd sep \<notin> set (tl sep)" and "\<not> contains post sep"
  shows "last (split_from sep acc (pre @ sep @ post)) = post"
  using assms
proof (induction pre arbitrary: acc rule: length_induct)
  case (1 pre)
  obtain c cs where sep: "sep = c # cs" using \<open>sep \<noteq> []\<close> by (cases sep) auto
  have c: "c \<notin> set cs" using \<open>hd sep \<notin> set (tl sep)\<close> sep by simp
  show ?case
  proof (cases pre)
    case Nil
    have "split_from sep acc (sep @ post) = rev acc # split_from sep [] post"
      using sep by (simp add: startswith_append[of "c # cs" post, simplified])
    then show ?thesis using Nil 1(4) 1(2) by (simp add: split_from_absent)
  next
    case (Cons p pre')
    show ?thesis
    proof (cases "startswith (pre @ sep @ post) sep")
      case True
      then obtain r where r: "pre @ sep @ post = sep @ r" by (auto simp: startswith_iff)
      have pc: "p = c" and r': "pre' @ c # cs @ post = cs @ r" using r Cons sep by auto
      have len: "length cs \<le> length pre'"
      proof (rule ccontr)
        assume "\<not> length cs \<le> length pre'"
        then have lt: "length pre' < length cs" by simp
        have "(pre' @ c # cs @ post) ! length pre' = c" by simp
        moreover have "(cs @ r) ! length pre' = cs ! length pre'" using lt by (simp add: nth_append)
        ultimately have "cs ! length pre' = c" using r' by simp
        then show False using c lt by (metis nth_mem)
      qed
      have "split_from sep acc (pre @ sep @ post)
              = rev acc # split_from sep [] (drop (length cs) (pre' @ sep @ post))"
        using True Cons sep by simp
      also have "drop (length cs) (pre' @ sep @ post) = drop (length cs) pre' @ sep @ post"
        using len by simp
      finally have "last (split_from sep acc (pre @ sep @ post))
              = last (split_from sep [] (drop (length cs) pre' @ sep @ post))"
        by (simp add: split_from_nonempty)
      moreover have "length (drop (length cs) pre') < length pre" using Cons by simp
      ultimately show ?thesis using 1 by simp
    next
      case False
      then have "split_from sep acc (pre @ sep @ post) = split_from sep (p # acc) (pre' @ sep @ post)"
        using Cons by simp
      moreover have "length pre' < length pre" using Cons by simp
      ultimately show ?thesis using 1 by simp
    qed
  qed
qed

lemma last_occurrence_absent:
  assumes "\<forall>pre' post'. s = pre' @ sep @ post' \<longrightarrow> length pre' \<le> length pre"
    and "s = pre @ sep @ post" and "sep \<noteq> []"
  shows "\<not> contains post sep"
proof
  assume "contains post sep"
  then obtain x y where "post = x @ sep @ y" by (auto simp: contains_iff)
  then have "s = (pre @ sep @ x) @ sep @ y" using assms(2) by simp
  then have "length (pre @ sep @ x) \<le> length pre" using assms(1) by blast
  then show False using assms(3) by simp
qed

lemma py_split_last:
  assumes "s = pre @ ''Response:'' @ post"
    and "\<forall>pre' post'. s = pre' @ ''Response:'' @ post' \<longrightarrow> length pre' \<le> length pre"
  shows "last (py_split s ''Response:'') = post"
proof -
  have "\<not> contains post ''Response:''"
    using last_occurrence_absent[OF assms(2) assms(1)] by simp
  then show ?thesis
    unfolding py_split_def assms(1) by (intro split_from_last) simp_all
qed

lemma last_occurrenceI:
  assumes s: "s = pre @ sep @ post" and ne: "sep \<noteq> []" and ub: "hd sep \<notin> set (tl sep)"
    and np: "\<not> contains post sep"
  shows "\<forall>pre' post'. s = pre' @ sep @ post' \<longrightarrow> length pre' \<le> length pre"
proof (intro allI impI, rule ccontr)
  fix pre' post'
  assume s': "s = pre' @ sep @ post'" and "\<not> length pre' \<le> length pre"
  then have gt: "length pre < length pre'" by simp
  show False
  proof (cases "length pre + length sep \<le> length pre'")
    case True
    have "take (length pre + length sep) s = pre @ sep" using s by simp
    moreover have "take (length pre + length sep) s = take (length pre + length sep) pre'"
      using s' True by simp
    ultimately have "pre' = (pre @ sep) @ drop (length pre + length sep) pre'"
      by (metis append_take_drop_id)
    then obtain x where "pre' = pre @ sep @ x" by (metis append.assoc)
    then have "post = x @ sep @ post'" using s s' by simp
    then show False using np by (auto simp: contains_iff)
  next
    case False
    define k where "k = length pre' - length pre"
    have k: "0 < k" "k < length sep" "length pre' = length pre + k" using gt False by (auto simp: k_def)
    have "s ! length pre' = hd sep" using s' ne by (simp add: nth_append hd_conv_nth)
    moreover have "s ! length pre' = sep ! k" using s k by (simp add: nth_append)
    ultimately have "sep ! k = hd sep" by simp
    moreover have "sep ! k = tl sep ! (k - 1)" using k by (simp add: nth_tl)
    moreover have "k - 1 < length (tl sep)" using k by simp
    ultimately show False using ub by (metis nth_mem)
  qed
qed

section \<open>Unfolding the agent loop\<close>

lemma agent_loop_raise:
  "get_response ext a w = (Inl e, w1) \<Longrightarrow> agent_loop ext a w = Some (Inl e, a, w1)"
  by (subst agent_loop.simps) simp

lemma agent_loop_final:
  "get_response ext a w = (Inr c, w1) \<Longrightarrow> contains c ''Response:'' \<Longrightarrow>
   agent_loop ext a w =
     Some (Inr (py_strip (last (py_split c ''Response:''))), append_message a ''assistant'' c, w1)"
  by (subst agent_loop.simps) simp

lemma agent_loop_tool_step:
  "get_response ext a w = (Inr c, w1) \<Longrightarrow> \<not> contains c ''Response:'' \<Longrightarrow>
   contains c ''Action:'' \<Longrightarrow> contains c ''Action Input:'' \<Longrightarrow>
   tool_call ext (append_message a ''assistant'' c) c w1 = (obs, w2) \<Longrightarrow>
   agent_loop ext a w =
     agent_loop ext (append_message (append_message a ''assistant'' c) ''user'' obs) w2"
  by (subst agent_loop.simps) simp

lemma agent_loop_malformed:
  "get_response ext a w = (Inr c, w1) \<Longrightarrow> \<not> contains c ''Response:'' \<Longrightarrow>
   \<not> (contains c ''Action:'' \<and> contains c ''Action Input:'') \<Longrightarrow>
   agent_loop ext a w = agent_loop ext (append_message a ''assistant'' c) w1"
  by (subst agent_loop.simps) auto

lemma agent_loop_never_returns:
  fixes ext :: "('j, 'w) externals"
  assumes "\<forall>ms w. \<exists>c w1. get_response ext (a\<lparr>messages := ms\<rparr>) w = (Inr c, w1) \<and> malformed c"
  shows "agent_loop ext (a\<lparr>messages := ms0\<rparr>) w0 = None"
proof -
  let ?stuck = "\<lambda>(ext :: ('j, 'w) externals) a.
     \<forall>ms w. \<exists>c w1. get_response ext (a\<lparr>messages := ms\<rparr>) w = (Inr c, w1) \<and> malformed c"
  have no: "\<not> ?stuck ext' a'" if "agent_loop ext' a' w' = Some y" for ext' a' w' y
  proof (rule agent_loop.raw_induct[where P = "\<lambda>ext a w y. \<not> ?stuck ext a", OF _ that])
    fix loop and ext :: "('j, 'w) externals" and a w y
    assume IH: "\<And>ext a w y. loop ext a w = Some y \<Longrightarrow> \<not> ?stuck ext a"
      and body: "(case get_response ext a w of
        (Inl e, w1) \<Rightarrow> Some (Inl e, a, w1)
      | (Inr response, w1) \<Rightarrow>
          (let a1 = append_message a ''assistant'' response
           in if contains response ''Response:''
              then Some (Inr (py_strip (last (py_split response ''Response:''))), a1, w1)
              else if contains response ''Action:'' \<and> contains response ''Action Input:''
              then (case tool_call ext a1 response w1 of
                      (observation, w2) \<Rightarrow>
                        loop ext (append_message a1 ''user'' observation) w2)
              else loop ext a1 w1)) = Some y"
    show "\<not> ?stuck ext a"
    proof
      assume all: "?stuck ext a"
      then obtain c w1 where g: "get_response ext (a\<lparr>messages := messages a\<rparr>) w = (Inr c, w1)"
        and m: "malformed c"
        by blast
      from g have g': "get_response ext a w = (Inr c, w1)" by simp
      from body g' m have "loop ext (append_message a ''assistant'' c) w1 = Some y"
        by (auto simp: Let_def malformed_def)
      from IH[OF this] have "\<not> ?stuck ext (a\<lparr>messages := messages a @ [\<lparr>role = ''assistant'', content = c\<rparr>]\<rparr>)"
        by (simp add: append_message_def)
      then show False using all by simp blast
    qed
  qed
  have st: "?stuck ext (a\<lparr>messages := ms0\<rparr>)" using assms by simp
  show ?thesis
  proof (cases "agent_loop ext (a\<lparr>messages := ms0\<rparr>) w0")
    case None
    then show ?thesis .
  next
    case (Some y)
    from no[OF Some] st show ?thesis by blast
  qed
qed

lemma call_never_returns:
  fixes ext :: "('j, 'w) externals"
  assumes "\<forall>ms w. \<exists>c w1. get_response ext (a\<lparr>messages := ms\<rparr>) w = (Inr c, w1) \<and> malformed c"
  shows "call ext a prompt w = None"
  using agent_loop_never_returns[OF assms] by (simp add: call_def append_message_def)

lemma llm_stuck_malformed:
  "\<exists>c w1. get_response (ex_llm llm_stuck) (ex_agent\<lparr>messages := ms\<rparr>) w = (Inr c, w1) \<and> malformed c"
  by (simp add: get_response_def get_gemini_response_def ex_llm_def llm_stuck_def ex_agent_def
      malformed_def)

lemma agent_loop_extends:
  fixes ext :: "('j, 'w) externals"
  assumes "agent_loop ext a w = Some (r, a', w')"
  shows "\<exists>ms. a' = a\<lparr>messages := messages a @ ms\<rparr>"
proof -
  have "\<exists>ms. fst (snd y) = a\<lparr>messages := messages a @ ms\<rparr>"
    if "agent_loop ext a w = Some y" for ext :: "('j, 'w) externals" and a w y
  proof (rule agent_loop.raw_induct[where P = "\<lambda>ext a w y. \<exists>ms. fst (snd y) = a\<lparr>messages := messages a @ ms\<rparr>", OF _ that])
    fix loop and ext :: "('j, 'w) externals" and a w y
    assume IH: "\<And>ext a w y. loop ext a w = Some y \<Longrightarrow> \<exists>ms. fst (snd y) = a\<lparr>messages := messages a @ ms\<rparr>"
      and body: "(case get_response ext a w of
        (Inl e, w1) \<Rightarrow> Some (Inl e, a, w1)
      | (Inr response, w1) \<Rightarrow>
          (let a1 = append_message a ''assistant'' response
           in if contains response ''Response:''
              then Some (Inr (py_strip (last (py_split response ''Response:''))), a1, w1)
              else if contains response ''Action:'' \<and> contains response ''Action Input:''
              then (case tool_call ext a1 response w1 of
                      (observation, w2) \<Rightarrow>
                        loop ext (append_message a1 ''user'' observation) w2)
              else loop ext a1 w1)) = Some y"
    obtain res w1 where g: "get_response ext a w = (res, w1)" by (cases "get_response ext a w")
    show "\<exists>ms. fst (snd y) = a\<lparr>messages := messages a @ ms\<rparr>"
    proof (cases res)
      case (Inl e)
      then have "fst (snd y) = a\<lparr>messages := messages a @ []\<rparr>" using body g by auto
      then show ?thesis by blast
    next
      case (Inr c)
      let ?a1 = "append_message a ''assistant'' c"
      consider (final) "contains c ''Response:''"
        | (tool) "\<not> contains c ''Response:''" "contains c ''Action:'' \<and> contains c ''Action Input:''"
        | (none) "\<not> contains c ''Response:''" "\<not> (contains c ''Action:'' \<and> contains c ''Action Input:'')"
        by blast
      then show ?thesis
      proof cases
        case final
        then have "fst (snd y) = a\<lparr>messages := messages a @ [\<lparr>role = ''assistant'', content = c\<rparr>]\<rparr>"
          using body g Inr by (auto simp: append_message_def)
        then show ?thesis by blast
      next
        case tool
        obtain obs w2 where t: "tool_call ext ?a1 c w1 = (obs, w2)" by (cases "tool_call ext ?a1 c w1")
        have "loop ext (append_message ?a1 ''user'' obs) w2 = Some y"
          using body g Inr tool t by (simp add: Let_def)
        from IH[OF this] obtain ms where
          "fst (snd y) = (append_message ?a1 ''user'' obs)\<lparr>messages := messages (append_message ?a1 ''user'' obs) @ ms\<rparr>"
          by blast
        then have "fst (snd y) = a\<lparr>messages := messages a @ (\<lparr>role = ''assistant'', content = c\<rparr> # \<lparr>role = ''user'', content = obs\<rparr> # ms)\<rparr>"
          by (simp add: append_message_def)
        then show ?thesis by blast
      next
        case none
        have "loop ext ?a1 w1 = Some y"
          using body g Inr none by (auto simp: Let_def)
        from IH[OF this] obtain ms where
          "fst (snd y) = ?a1\<lparr>messages := messages ?a1 @ ms\<rparr>" by blast
        then have "fst (snd y) = a\<lparr>messages := messages a @ (\<lparr>role = ''assistant'', content = c\<rparr> # ms)\<rparr>"
          by (simp add: append_message_def)
        then show ?thesis by blast
      qed
    qed
  qed
  from this[OF assms] show ?thesis by simp
qed

lemma call_extends:
  assumes "call ext a prompt w = Some (r, a', w')"
  shows "\<exists>ms. a' = a\<lparr>messages := messages a @ \<lparr>role = ''user'', content = ''Patient: '' @ prompt\<rparr> # ms\<rparr>"
proof -
  let ?a0 = "append_message a ''user'' (''Patient: '' @ prompt)"
  from assms obtain x where "agent_loop ext ?a0 w = Some (x, a', w')"
    by (auto simp: call_def split: option.splits sum.splits)
  from agent_loop_extends[OF this] obtain ms where "a' = ?a0\<lparr>messages := messages ?a0 @ ms\<rparr>" by blast
  then have "a' = a\<lparr>messages := messages a @ \<lparr>role = ''user'', content = ''Patient: '' @ prompt\<rparr> # ms\<rparr>"
    by (simp add: append_message_def)
  then show ?thesis by blast
qed

lemma ex_call_final:
  "call (ex_llm llm_final) ex_agent ''hi'' 0 =
     Some (''Take your pill at 8am.'',
           ex_agent\<lparr>messages := [\<lparr>role = ''system'', content = ''sys''\<rparr>,
                                 \<lparr>role = ''user'', content = ''Patient: hi''\<rparr>,
                                 \<lparr>role = ''assistant'', content = ''Action: medication_tool\<newline>Response: no Response: Take your pill at 8am. ''\<rparr>]\<rparr>,
           0)"
proof -
  let ?c = "''Action: medication_tool\<newline>Response: no Response: Take your pill at 8am. ''"
  have g: "get_response (ex_llm llm_final) (append_message ex_agent ''user'' (''Patient: '' @ ''hi'')) 0 = (Inr ?c, 0)"
    by (simp add: get_response_def get_gemini_response_def ex_llm_def llm_final_def
        append_message_def ex_agent_def)
  have c: "contains ?c ''Response:''" by simp
  have s: "py_strip (last (py_split ?c ''Response:'')) = ''Take your pill at 8am.''"
    by (simp add: py_split_def py_strip_def py_isspace_def)
  show ?thesis
    using agent_loop_final[OF g c] s by (simp add: call_def append_message_def ex_agent_def)
qed

section \<open>Facts about the parser\<close>

lemma py_replace_prefix: "old \<noteq> [] \<Longrightarrow> py_replace (old @ s) old new = new @ py_replace s old new"
  by (cases old) (simp_all add: startswith_append[of "_ # _", simplified])

lemma parse_lines_append: "parse_lines (xs @ ys) st = parse_lines ys (parse_lines xs st)"
proof (induction xs arbitrary: st)
  case Nil
  then show ?case by simp
next
  case (Cons l xs)
  obtain act acc b where st: "st = (act, acc, b)" by (cases st)
  show ?case unfolding st by (simp add: Cons.IH Let_def)
qed

lemma parse_no_input_lines:
  "\<forall>l\<in>set ls. \<not> startswith l ''Action Input:'' \<Longrightarrow>
   \<exists>act'. parse_lines ls (act, acc, False) = (act', acc, False)"
  by (induction ls arbitrary: act) auto

lemma tools_ex_agent: "tools ex_agent = [(''medication_tool'', ex_tool)]"
  by (simp add: ex_agent_def format_tools_def dict_of_def name_ex_tool)

lemma run_ex_tool:
  "run ex_tool x w =
     (Inr (case x of Raw s \<Rightarrow> ''text '' @ s
                   | Structured d \<Rightarrow> ''keys '' @ py_join '','' (dict_keys d)), Suc w)"
  by (simp add: ex_tool_def model_post_init_def)

lemma tool_call_not_found:
  assumes "parse_action_string ext response = (action, action_input)"
    and "action = None \<or> py_lower (py_strip (the action)) \<notin> set (dict_keys (tools a))"
  shows "tool_call ext a response w =
           (''Observation: Tool '' @ [CHR 0x27] @ py_format action @ [CHR 0x27]
              @ '' not found. Available tools: '' @ py_repr_list (dict_keys (tools a)), w)"
proof -
  have "(if truthy action then dict_get (tools a) (py_lower (py_strip (the action))) else None) = None"
    using assms(2) by (auto simp: dict_get_def dict_keys_def map_of_eq_None_iff)
  then show ?thesis by (simp add: tool_call_def assms(1))
qed

lemma repr_keys_ex_agent: "py_repr_list (dict_keys (tools ex_agent)) = ''['medication_tool']''"
  unfolding tools_ex_agent by code_simp

lemma py_split_last_done: "py_strip (last (py_split ''Response: done'' ''Response:'')) = ''done''"
  by (simp add: py_split_def py_strip_def py_isspace_def)

lemma name_ex_tool_trailing: "name ex_tool_trailing = ''refill_''"
  by code_simp

lemma name_ex_tool_refill: "name ex_tool_refill = ''refill''"
  by code_simp

lemma py_replace_no_space: "CHR '' '' \<notin> set (py_replace s '' '' ''_'')"
proof (induction s)
  case Nil
  then show ?case by simp
next
  case (Cons c s)
  then show ?case by (cases "c = CHR '' ''") simp_all
qed

lemma py_lower_char_space: "py_lower_char c = CHR '' '' \<longleftrightarrow> c = CHR '' ''"
proof
  assume h: "py_lower_char c = CHR '' ''"
  define n where "n = (of_char c :: nat)"
  show "c = CHR '' ''"
  proof (cases "(65 \<le> n \<and> n \<le> 90) \<or> (192 \<le> n \<and> n \<le> 222 \<and> n \<noteq> 215)")
    case True
    then have "py_lower_char c = char_of (n + 32)"
      unfolding py_lower_char_def Let_def n_def by (rule if_P)
    then have "char_of (n + 32) = CHR '' ''" using h by simp
    then have "of_char (char_of (n + 32)) = (of_char (CHR '' '') :: nat)" by (rule arg_cong)
    then have m: "(n + 32) mod 256 = 32" by simp
    have "n + 32 < 256" using True by arith
    then have "(n + 32) mod 256 = n + 32" by (rule mod_less)
    then have "n = 0" using m by arith
    then show ?thesis using True by arith
  next
    case False
    then have "py_lower_char c = c"
      unfolding py_lower_char_def Let_def n_def by (rule if_not_P)
    then show ?thesis using h by simp
  qed
next
  assume "c = CHR '' ''"
  then show "py_lower_char c = CHR '' ''" by (simp add: py_lower_char_def)
qed

lemma py_lower_space: "CHR '' '' \<in> set (py_lower s) \<longleftrightarrow> CHR '' '' \<in> set s"
proof -
  have "CHR '' '' \<in> set (py_lower s) \<longleftrightarrow> (\<exists>c\<in>set s. py_lower_char c = CHR '' '')"
    unfolding py_lower_def set_map image_iff by (rule bex_cong) auto
  then show ?thesis by (simp add: py_lower_char_space)
qed

lemma name_model_post_init_no_space: "CHR '' '' \<notin> set (name (model_post_init t))"
  by (simp add: model_post_init_def py_replace_no_space)

lemma py_strip_leading_space: "py_strip (CHR '' '' # s) = py_strip s"
  by (simp add: py_strip_def py_isspace_def)

lemma ex_tool_raw: "ex_tool = model_post_init ex_raw_tool"
  by (simp add: ex_tool_def ex_raw_tool_def)

subsection \<open>What the parser computes on any list of lines\<close>

lemma input_line_not_action: "startswith x ''Action Input:'' \<Longrightarrow> \<not> startswith x ''Action:''"
  by (auto simp: startswith_iff)

lemma observation_line_not_marker:
  "startswith x ''Observation:'' \<Longrightarrow> \<not> startswith x ''Action:'' \<and> \<not> startswith x ''Action Input:''"
  by (auto simp: startswith_iff)

lemma parse_lines_action: "fst (parse_lines ls (act, acc, b)) =
    (case filter (\<lambda>x. startswith x ''Action:'') ls of
       [] \<Rightarrow> act
     | x # xs \<Rightarrow> Some (py_strip (py_replace (last (x # xs)) ''Action:'' '''')))"
proof (induction ls arbitrary: act acc b)
  case Nil
  then show ?case by simp
next
  case (Cons l ls)
  show ?case
  proof (cases "startswith l ''Action:''")
    case True
    then show ?thesis
      using Cons.IH[of "Some (py_strip (py_replace l ''Action:'' ''''))" acc b]
      by (simp split: list.splits)
  next
    case False
    then show ?thesis
      using Cons.IH by (simp add: Let_def)
  qed
qed

lemma parse_lines_last_action: "fst (parse_lines ls (None, acc, b)) = last_action ls"
  by (simp add: parse_lines_action last_action_def)

lemma parse_lines_acc:
  "fst (snd (parse_lines ls (act, acc, b))) = acc @ fst (snd (parse_lines ls (None, [], b)))
   \<and> snd (snd (parse_lines ls (act, acc, b))) = snd (snd (parse_lines ls (None, [], b)))"
proof (induction ls arbitrary: act acc b)
  case Nil
  then show ?case by simp
next
  case (Cons l ls)
  note IH = Cons.IH
  consider (a) "startswith l ''Action:''"
    | (i) "\<not> startswith l ''Action:''" "startswith l ''Action Input:''"
    | (o) "\<not> startswith l ''Action:''" "\<not> startswith l ''Action Input:''" "startswith l ''Observation:''"
    | (c) "\<not> startswith l ''Action:''" "\<not> startswith l ''Action Input:''" "\<not> startswith l ''Observation:''"
    by blast
  then show ?case
  proof cases
    case a
    then show ?thesis
      using IH[of "Some (py_strip (py_replace l ''Action:'' ''''))" acc b]
        IH[of "Some (py_strip (py_replace l ''Action:'' ''''))" "[]" b] by simp
  next
    case i
    let ?t = "py_strip (py_replace l ''Action Input:'' '''')"
    show ?thesis
    proof (cases "?t = []")
      case True
      then show ?thesis using i IH[of act acc True] by (simp add: Let_def)
    next
      case False
      then show ?thesis
        using i IH[of act "acc @ [?t]" True] IH[of None "[?t]" True] by (simp add: Let_def)
    qed
  next
    case o
    then show ?thesis using IH[of act acc False] by simp
  next
    case c
    show ?thesis
    proof (cases "b \<and> py_strip l \<noteq> []")
      case True
      then show ?thesis
        using c IH[of act "acc @ [py_strip l]" b] IH[of None "[py_strip l]" b] by simp
    next
      case False
      then show ?thesis using c IH[of act acc b] by auto
    qed
  qed
qed

lemma parse_collecting:
  "\<forall>x\<in>set sect. \<not> startswith x ''Observation:'' \<Longrightarrow>
   fst (snd (parse_lines sect (act, acc, True))) = acc @ filter (\<lambda>t. t \<noteq> []) (map contribution sect)
   \<and> snd (snd (parse_lines sect (act, acc, True)))"
proof (induction sect arbitrary: act acc)
  case Nil
  then show ?case by simp
next
  case (Cons l ls)
  then have IH: "\<And>act acc. fst (snd (parse_lines ls (act, acc, True)))
        = acc @ filter (\<lambda>t. t \<noteq> []) (map contribution ls)
      \<and> snd (snd (parse_lines ls (act, acc, True)))"
    and l: "\<not> startswith l ''Observation:''" by auto
  consider (a) "startswith l ''Action:''"
    | (i) "\<not> startswith l ''Action:''" "startswith l ''Action Input:''"
    | (c) "\<not> startswith l ''Action:''" "\<not> startswith l ''Action Input:''"
    by blast
  then show ?case
  proof cases
    case a
    then have "contribution l = []" by (simp add: contribution_def)
    then show ?thesis using a IH by simp
  next
    case i
    then have "contribution l = py_strip (py_replace l ''Action Input:'' '''')"
      by (simp add: contribution_def)
    then show ?thesis using i IH by (simp add: Let_def)
  next
    case c
    then have "contribution l = py_strip l" by (simp add: contribution_def)
    then show ?thesis using c IH l by simp
  qed
qed

lemma parse_section_head:
  assumes "startswith l ''Action Input:''" and "\<forall>x\<in>set sect. \<not> startswith x ''Observation:''"
  shows "fst (snd (parse_lines (l # sect) (act, acc, b)))
           = acc @ filter (\<lambda>t. t \<noteq> []) (map contribution (l # sect))
         \<and> snd (snd (parse_lines (l # sect) (act, acc, b)))"
proof -
  let ?t = "py_strip (py_replace l ''Action Input:'' '''')"
  have na: "\<not> startswith l ''Action:''" using assms(1) by (rule input_line_not_action)
  have c: "contribution l = ?t" using na assms(1) by (simp add: contribution_def)
  have "parse_lines (l # sect) (act, acc, b)
          = parse_lines sect (act, (if ?t \<noteq> [] then acc @ [?t] else acc), True)"
    using na assms(1) by (simp add: Let_def)
  then show ?thesis
    using parse_collecting[OF assms(2), of act "if ?t \<noteq> [] then acc @ [?t] else acc"] c by simp
qed

lemma parse_after_section:
  assumes "rest = [] \<or> startswith (hd rest) ''Observation:''"
  shows "fst (snd (parse_lines rest (act, acc, True)))
           = acc @ fst (snd (parse_lines rest (None, [], False)))"
proof (cases rest)
  case Nil
  then show ?thesis by simp
next
  case (Cons x r)
  then have x: "startswith x ''Observation:''" using assms by simp
  have nm: "\<not> startswith x ''Action:''" "\<not> startswith x ''Action Input:''"
    using observation_line_not_marker[OF x] by simp_all
  have "fst (snd (parse_lines (x # r) (act, acc, True))) = fst (snd (parse_lines r (act, acc, False)))"
    using x nm by simp
  also have "\<dots> = acc @ fst (snd (parse_lines r (None, [], False)))"
    using parse_lines_acc[of r act acc False] by simp
  also have "fst (snd (parse_lines r (None, [], False))) = fst (snd (parse_lines (x # r) (None, [], False)))"
    using x nm by simp
  finally show ?thesis using Cons by simp
qed


lemma parse_one_section:
  assumes "is_section s"
  shows "fst (snd (parse_lines (section_lines s) (act, acc, b))) = acc @ section_text s"
proof -
  obtain l sect idle where s: "s = (l, sect, idle)" by (cases s)
  have l: "startswith l ''Action Input:''"
    and sect: "\<forall>x\<in>set sect. \<not> startswith x ''Observation:''"
    and idle: "idle = [] \<or> startswith (hd idle) ''Observation:''"
    and ni: "\<forall>x\<in>set idle. \<not> startswith x ''Action Input:''"
    using assms s by auto
  obtain a1 acc1 b1 where q: "parse_lines (l # sect) (act, acc, b) = (a1, acc1, b1)"
    by (cases "parse_lines (l # sect) (act, acc, b)")
  have q': "acc1 = acc @ section_text s" "b1"
    using parse_section_head[OF l sect, of act acc b] q s by simp_all
  have "parse_lines ((l # sect) @ idle) (act, acc, b) = parse_lines idle (a1, acc1, True)"
    unfolding parse_lines_append q using q'(2) by simp
  moreover have "fst (snd (parse_lines idle (a1, acc1, True))) = acc1"
  proof -
    obtain a2 where "parse_lines idle (None, [], False) = (a2, [], False)"
      using parse_no_input_lines[OF ni] by blast
    then show ?thesis using parse_after_section[OF idle, of a1 acc1] by simp
  qed
  ultimately show ?thesis using q'(1) s by simp
qed

lemma parse_sections:
  assumes "\<forall>s\<in>set secs. is_section s"
  shows "fst (snd (parse_lines (concat (map section_lines secs)) (act, acc, b)))
           = acc @ concat (map section_text secs)"
  using assms
proof (induction secs arbitrary: act acc b)
  case Nil
  then show ?case by simp
next
  case (Cons s secs)
  obtain a1 acc1 b1 where q: "parse_lines (section_lines s) (act, acc, b) = (a1, acc1, b1)"
    by (cases "parse_lines (section_lines s) (act, acc, b)")
  have acc1: "acc1 = acc @ section_text s"
    using parse_one_section[of s act acc b] Cons.prems q by simp
  have "parse_lines (concat (map section_lines (s # secs))) (act, acc, b)
          = parse_lines (concat (map section_lines secs)) (a1, acc1, b1)"
    using parse_lines_append[of "section_lines s" "concat (map section_lines secs)" "(act, acc, b)"] q
    by simp
  then show ?case using Cons.IH[of a1 acc1 b1] Cons.prems acc1 by simp
qed

lemma parse_sectioned:
  assumes "sectioned ls idle0 secs"
  shows "parse_lines ls (None, [], False)
           = (last_action ls, concat (map section_text secs), snd (snd (parse_lines ls (None, [], False))))"
proof -
  have ls: "ls = idle0 @ concat (map section_lines secs)"
    and i0: "\<forall>x\<in>set idle0. \<not> startswith x ''Action Input:''"
    and secs: "\<forall>s\<in>set secs. is_section s"
    using assms by (simp_all add: sectioned_def)
  obtain a0 where p: "parse_lines idle0 (None, [], False) = (a0, [], False)"
    using parse_no_input_lines[OF i0] by blast
  have "fst (snd (parse_lines ls (None, [], False))) = concat (map section_text secs)"
    unfolding ls parse_lines_append p using parse_sections[OF secs, of a0 "[]" False] by simp
  moreover have "fst (parse_lines ls (None, [], False)) = last_action ls"
    by (rule parse_lines_last_action)
  ultimately show ?thesis by (metis prod.collapse)
qed

lemma sections_exist: "\<exists>idle0 secs. sectioned ls idle0 secs"
proof (induction ls)
  case Nil
  have "sectioned [] [] []" by (simp add: sectioned_def)
  then show ?case by blast
next
  case (Cons x ls)
  then obtain idle0 secs where s: "sectioned ls idle0 secs" by blast
  then have ls: "ls = idle0 @ concat (map section_lines secs)"
    and i0: "\<forall>x\<in>set idle0. \<not> startswith x ''Action Input:''"
    and secs: "\<forall>s\<in>set secs. is_section s"
    by (simp_all add: sectioned_def)
  show ?case
  proof (cases "startswith x ''Action Input:''")
    case False
    then have "sectioned (x # ls) (x # idle0) secs" using ls i0 secs by (simp add: sectioned_def)
    then show ?thesis by blast
  next
    case True
    let ?P = "\<lambda>y. \<not> startswith y ''Observation:''"
    let ?s = "(x, takeWhile ?P idle0, dropWhile ?P idle0)"
    have "is_section ?s"
    proof -
      have "\<forall>y\<in>set (takeWhile ?P idle0). \<not> startswith y ''Action Input:'' \<and> \<not> startswith y ''Observation:''"
        using i0 by (auto dest: set_takeWhileD)
      moreover have "dropWhile ?P idle0 = [] \<or> startswith (hd (dropWhile ?P idle0)) ''Observation:''"
        using hd_dropWhile[of ?P idle0] by auto
      moreover have "\<forall>y\<in>set (dropWhile ?P idle0). \<not> startswith y ''Action Input:''"
        using i0 by (auto dest: set_dropWhileD)
      ultimately show ?thesis using True by simp
    qed
    moreover have "x # ls = [] @ concat (map section_lines (?s # secs))"
      using ls by simp
    ultimately have "sectioned (x # ls) [] (?s # secs)" using secs by (simp add: sectioned_def)
    then show ?thesis by blast
  qed
qed


lemma parse_action_string_sectioned:
  assumes "sectioned (py_split response ''\<newline>'') idle0 secs"
  shows "parse_action_string ext response
           = (last_action (py_split response ''\<newline>''), decode_input ext (input_text secs))"
proof -
  obtain act acc b where p: "parse_lines (py_split response ''\<newline>'') (None, [], False) = (act, acc, b)"
    by (cases "parse_lines (py_split response ''\<newline>'') (None, [], False)")
  have "act = last_action (py_split response ''\<newline>'')" "acc = concat (map section_text secs)"
    using parse_sectioned[OF assms] p by simp_all
  then show ?thesis by (simp add: parse_action_string_def p input_text_def)
qed

lemma tool_call_found:
  assumes "parse_action_string ext response = (Some nm, x)"
    and "nm \<noteq> []"
    and "dict_get (tools a) (py_lower (py_strip nm)) = Some t"
  shows "tool_call ext a response w =
           (case run t x w of
              (Inr tool_observation, w') \<Rightarrow> (''Observation: '' @ tool_observation, w')
            | (Inl (Exception e), w') \<Rightarrow>
                (''Observation: There was an error executing the tool.\<newline>Error: '' @ e, w'))"
  using assms by (simp add: tool_call_def)




lemma tool_call_sectioned:
  assumes "sectioned (py_split response ''\<newline>'') idle0 secs"
    and "last_action (py_split response ''\<newline>'') = Some nm"
    and "nm \<noteq> []"
    and "dict_get (tools a) (py_lower (py_strip nm)) = Some t"
  shows "tool_call ext a response w =
           (case run t (decode_input ext (input_text secs)) w of
              (Inr tool_observation, w') \<Rightarrow> (''Observation: '' @ tool_observation, w')
            | (Inl (Exception e), w') \<Rightarrow>
                (''Observation: There was an error executing the tool.\<newline>Error: '' @ e, w'))"
  using tool_call_found[OF _ assms(3,4)] parse_action_string_sectioned[OF assms(1), of ext] assms(2)
  by simp

lemma tool_call_sectioned_not_found:
  assumes "sectioned (py_split response ''\<newline>'') idle0 secs"
    and "last_action (py_split response ''\<newline>'') = Some nm"
    and "nm = [] \<or> py_lower (py_strip nm) \<notin> set (dict_keys (tools a))"
  shows "tool_call ext a response w =
           (''Observation: Tool '' @ [CHR 0x27] @ nm @ [CHR 0x27]
              @ '' not found. Available tools: '' @ py_repr_list (dict_keys (tools a)), w)"
proof (cases "nm = []")
  case True
  then show ?thesis
    using parse_action_string_sectioned[OF assms(1), of ext] assms(2)
    by (simp add: tool_call_def)
next
  case False
  then show ?thesis
    using tool_call_not_found[of ext response "Some nm" _ a w]
      parse_action_string_sectioned[OF assms(1), of ext] assms(2,3)
    by simp
qed

lemma ex_json_loads_text: "c \<noteq> CHR ''{'' \<Longrightarrow> decode_input (ex_llm f) (c # s) = Raw (c # s)"
  by (simp add: decode_input_def ex_llm_def ex_json_loads_def)

lemma ex_json_loads_empty: "json_loads (ex_llm f) [] = None"
  by (simp add: ex_llm_def ex_json_loads_def)

lemma ex_json_loads_request:
  "json_loads (ex_llm f) ex_request = Some [(''action'', ''list''), (''patient_id'', ''p1'')]"
  by (simp add: ex_llm_def ex_json_loads_def ex_request_def dq_def dict_of_def)

lemma get_ex_tool: "dict_get (tools ex_agent) ''medication_tool'' = Some ex_tool"
  by (simp add: tools_ex_agent dict_get_def)


lemma length_py_lower: "length (py_lower s) = length s"
  by (simp add: py_lower_def)

lemma length_py_replace_space: "length (py_replace s '' '' ''_'') = length s"
proof (induction s)
  case Nil
  then show ?case by simp
next
  case (Cons c s)
  then show ?case by (cases "c = CHR '' ''") simp_all
qed

lemma dropWhile_same_length:
  assumes "length (dropWhile P xs) = length xs"
  shows "dropWhile P xs = xs"
proof -
  have "length (takeWhile P xs) + length (dropWhile P xs) = length xs"
    by (metis length_append takeWhile_dropWhile_id)
  then have "takeWhile P xs = []" using assms by simp
  then show ?thesis using takeWhile_dropWhile_id[of P xs] by simp
qed

lemma py_strip_length: "length (py_strip s) \<le> length s"
  unfolding py_strip_def
  using length_dropWhile_le[of py_isspace "rev (dropWhile py_isspace s)"]
    length_dropWhile_le[of py_isspace s] by simp

lemma py_strip_same_length:
  assumes "length (py_strip s) = length s"
  shows "py_strip s = s"
proof -
  have a: "length (dropWhile py_isspace (rev (dropWhile py_isspace s))) \<le> length (dropWhile py_isspace s)"
    using length_dropWhile_le[of py_isspace "rev (dropWhile py_isspace s)"] by simp
  have b: "length (dropWhile py_isspace s) \<le> length s" by (rule length_dropWhile_le)
  have e: "length (dropWhile py_isspace (rev (dropWhile py_isspace s))) = length s"
    using assms by (simp add: py_strip_def)
  have "length (dropWhile py_isspace s) = length s" using a b e by simp
  then have 1: "dropWhile py_isspace s = s" by (rule dropWhile_same_length)
  have "length (dropWhile py_isspace (rev s)) = length (rev s)" using e 1 by simp
  then have "dropWhile py_isspace (rev s) = rev s" by (rule dropWhile_same_length)
  then show ?thesis using 1 by (simp add: py_strip_def)
qed

lemma py_replace_delete_length:
  "length (py_replace s old []) \<le> length s
   \<and> (length (py_replace s old []) = length s \<longrightarrow> py_replace s old [] = s)"
proof (induction s old "[] :: string" rule: py_replace.induct)
  case (1 old)
  then show ?case by simp
next
  case (2 c cs old)
  show ?case
  proof (cases "startswith (c # cs) old")
    case True
    then have "length (py_replace (drop (length old - 1) cs) old []) \<le> length (drop (length old - 1) cs)"
      using 2(1) by simp
    then have "length (py_replace (c # cs) old []) \<le> length cs" using True by simp
    then show ?thesis by simp
  next
    case False
    then show ?thesis using 2(2) by simp
  qed
qed

lemma format_tools_get_name: "dict_get (format_tools ts) k = Some t \<Longrightarrow> name t = k \<and> t \<in> set ts"
  unfolding format_tools_get by (auto dest!: map_of_SomeD)

lemma last_action_line:
  assumes "\<forall>l\<in>set post. \<not> startswith l ''Action:''"
  shows "last_action (pre @ (''Action: '' @ n) # post)
           = Some (py_strip (py_replace n ''Action:'' ''''))"
proof -
  have f: "filter (\<lambda>x. startswith x ''Action:'') post = []" using assms by (simp add: filter_empty_conv)
  have r: "py_replace (''Action: '' @ n) ''Action:'' '''' = CHR '' '' # py_replace n ''Action:'' ''''"
    using py_replace_prefix[of "''Action:''" "'' '' @ n" "''''"] by simp
  define line where "line = ''Action: '' @ n"
  have sw: "startswith line ''Action:''" unfolding line_def by simp
  have "filter (\<lambda>x. startswith x ''Action:'') (pre @ line # post)
          = filter (\<lambda>x. startswith x ''Action:'') pre @ [line]"
    using f sw by simp
  then have "last_action (pre @ line # post) = Some (py_strip (py_replace line ''Action:'' ''''))"
    unfolding last_action_def
    by (cases "filter (\<lambda>x. startswith x ''Action:'') pre") simp_all
  then show ?thesis unfolding line_def r by (simp only: py_strip_leading_space)
qed

lemma spoken_key_differs:
  assumes "CHR '' '' \<in> set n"
  shows "py_lower (py_strip (py_strip (py_replace n ''Action:'' ''''))) \<noteq> py_replace (py_lower n) '' '' ''_''"
proof
  let ?p = "py_strip (py_replace n ''Action:'' '''')"
  assume eq: "py_lower (py_strip ?p) = py_replace (py_lower n) '' '' ''_''"
  then have "length (py_lower (py_strip ?p)) = length (py_replace (py_lower n) '' '' ''_'')" by simp
  then have l: "length ?p = length n"
    by (simp add: py_strip_idem length_py_lower length_py_replace_space)
  have a: "length ?p \<le> length (py_replace n ''Action:'' '''')" by (rule py_strip_length)
  have b: "length (py_replace n ''Action:'' '''') \<le> length n"
    using py_replace_delete_length[of n "''Action:''"] by simp
  have "length (py_replace n ''Action:'' '''') = length n" using l a b by simp
  then have r: "py_replace n ''Action:'' '''' = n"
    using py_replace_delete_length[of n "''Action:''"] by simp
  have "length (py_strip n) = length n" using l unfolding r .
  then have "py_strip n = n" by (rule py_strip_same_length)
  then have "py_strip ?p = n" unfolding r by simp
  then have "py_lower (py_strip ?p) = py_lower n" by (rule arg_cong)
  then have "CHR '' '' \<in> set (py_lower (py_strip ?p))"
    using assms py_lower_space[of n] by (simp only:)
  then show False unfolding eq using py_replace_no_space[of "py_lower n"] by simp
qed

lemma ex_tool_trailing_raw: "ex_tool_trailing = model_post_init ex_raw_trailing"
  by (simp add: ex_tool_trailing_def ex_raw_trailing_def)

section \<open>The final response\<close>

text \<open>
  C1. When a completion has the marker \<open>Response:\<close>, the loop leaves at once, at
  whatever point of the turn the completion arrives: the result is the text after the
  last occurrence of the marker, without its surrounding whitespace, whatever else the
  completion holds (an \<open>Action:\<close> line included). The conversation gains that
  completion and nothing else, and the world is as the provider left it: no tool has
  run. For the first completion of a turn this is what \<open>call\<close> returns.
\<close>

theorem response_wins:
  assumes "c = pre @ ''Response:'' @ post"
    and "\<forall>pre' post'. c = pre' @ ''Response:'' @ post' \<longrightarrow> length pre' \<le> length pre"
  shows "(get_response ext a w = (Inr c, w1) \<longrightarrow>
            agent_loop ext a w =
              Some (Inr (py_strip post),
                    a\<lparr>messages := messages a @ [\<lparr>role = ''assistant'', content = c\<rparr>]\<rparr>, w1))
       \<and> (get_response ext (append_message a ''user'' (''Patient: '' @ prompt)) w = (Inr c, w1) \<longrightarrow>
            call ext a prompt w =
              Some (py_strip post,
                    a\<lparr>messages := messages a @ [\<lparr>role = ''user'', content = ''Patient: '' @ prompt\<rparr>,
                                                 \<lparr>role = ''assistant'', content = c\<rparr>]\<rparr>,
                    w1))"
proof (intro conjI impI)
  have m: "contains c ''Response:''" using assms(1) contains_iff by blast
  {
    assume g: "get_response ext a w = (Inr c, w1)"
    from agent_loop_final[OF g m] py_split_last[OF assms]
    show "agent_loop ext a w =
              Some (Inr (py_strip post),
                    a\<lparr>messages := messages a @ [\<lparr>role = ''assistant'', content = c\<rparr>]\<rparr>, w1)"
      by (simp add: append_message_def)
  next
    assume g: "get_response ext (append_message a ''user'' (''Patient: '' @ prompt)) w = (Inr c, w1)"
    from agent_loop_final[OF g m] py_split_last[OF assms]
    show "call ext a prompt w =
              Some (py_strip post,
                    a\<lparr>messages := messages a @ [\<lparr>role = ''user'', content = ''Patient: '' @ prompt\<rparr>,
                                                 \<lparr>role = ''assistant'', content = c\<rparr>]\<rparr>,
                    w1)"
      by (simp add: call_def append_message_def)
  }
qed

theorem response_wins_witness:
  "get_response (ex_llm llm_final) (append_message ex_agent ''user'' ''Patient: hi'') 0
     = (Inr ''Action: medication_tool\<newline>Response: no Response: Take your pill at 8am. '', 0)
   \<and> agent_loop (ex_llm llm_final) (append_message ex_agent ''user'' ''Patient: hi'') 0 =
     Some (Inr ''Take your pill at 8am.'',
           ex_agent\<lparr>messages := [\<lparr>role = ''system'', content = ''sys''\<rparr>,
                                 \<lparr>role = ''user'', content = ''Patient: hi''\<rparr>,
                                 \<lparr>role = ''assistant'', content = ''Action: medication_tool\<newline>Response: no Response: Take your pill at 8am. ''\<rparr>]\<rparr>,
           0)
   \<and> call (ex_llm llm_final) ex_agent ''hi'' 0 =
     Some (''Take your pill at 8am.'',
           ex_agent\<lparr>messages := [\<lparr>role = ''system'', content = ''sys''\<rparr>,
                                 \<lparr>role = ''user'', content = ''Patient: hi''\<rparr>,
                                 \<lparr>role = ''assistant'', content = ''Action: medication_tool\<newline>Response: no Response: Take your pill at 8am. ''\<rparr>]\<rparr>,
           0)"
proof -
  let ?c = "''Action: medication_tool\<newline>Response: no Response: Take your pill at 8am. ''"
  let ?pre = "''Action: medication_tool\<newline>Response: no ''"
  let ?post = "'' Take your pill at 8am. ''"
  let ?a0 = "append_message ex_agent ''user'' ''Patient: hi''"
  have g: "get_response (ex_llm llm_final) ?a0 0 = (Inr ?c, 0)"
    by (simp add: get_response_def get_gemini_response_def ex_llm_def llm_final_def
        append_message_def ex_agent_def)
  have g': "get_response (ex_llm llm_final) (append_message ex_agent ''user'' (''Patient: '' @ ''hi'')) 0
              = (Inr ?c, 0)"
    using g by simp
  have d: "?c = ?pre @ ''Response:'' @ ?post" by simp
  have l: "\<forall>pre' post'. ?c = pre' @ ''Response:'' @ post' \<longrightarrow> length pre' \<le> length ?pre"
    by (rule last_occurrenceI[OF d]) simp_all
  have s: "py_strip ?post = ''Take your pill at 8am.''"
    by (simp add: py_strip_def py_isspace_def)
  have c1: "agent_loop (ex_llm llm_final) ?a0 0 =
     Some (Inr ''Take your pill at 8am.'',
           ?a0\<lparr>messages := messages ?a0 @ [\<lparr>role = ''assistant'', content = ?c\<rparr>]\<rparr>, 0)"
    using response_wins[OF d l, of "ex_llm llm_final" ?a0 0 0 "''again''"] g unfolding s by blast
  have c2: "call (ex_llm llm_final) ex_agent ''hi'' 0 =
     Some (''Take your pill at 8am.'',
           ex_agent\<lparr>messages := messages ex_agent @ [\<lparr>role = ''user'', content = ''Patient: '' @ ''hi''\<rparr>,
                                                 \<lparr>role = ''assistant'', content = ?c\<rparr>]\<rparr>, 0)"
    using response_wins[OF d l, of "ex_llm llm_final" ex_agent 0 0 "''hi''"] g' unfolding s by blast
  show ?thesis
    using g c1 c2 by (simp add: append_message_def ex_agent_def)
qed

section \<open>Completions with no marker\<close>

text \<open>
  C2, as stated: the loop leaves after a bounded number of completions that have neither
  \<open>Response:\<close> nor both of \<open>Action:\<close> and \<open>Action Input:\<close>. It does not: with a provider
  that answers \<open>Thought: hmm\<close> every time, \<open>call\<close> never returns.
\<close>

theorem malformed_completions_loop_counterexample:
  "call (ex_llm llm_stuck) ex_agent ''hi'' 0 = None"
  by (rule call_never_returns) (blast intro: llm_stuck_malformed)

text \<open>
  C2, amended. A completion with no marker is appended as an assistant message and the
  provider is asked again, with no bound on the number of requests; when every
  completion the provider can give is of that kind, \<open>call\<close> never returns.
\<close>

theorem malformed_completion_retries_unbounded:
  fixes ext :: "('j, 'w) externals"
  shows "(get_response ext a w = (Inr c, w1) \<and> malformed c \<longrightarrow>
            agent_loop ext a w = agent_loop ext (append_message a ''assistant'' c) w1)
       \<and> ((\<forall>ms w. \<exists>c w1. get_response ext (a\<lparr>messages := ms\<rparr>) w = (Inr c, w1) \<and> malformed c) \<longrightarrow>
            call ext a prompt w = None)"
proof (intro conjI impI)
  assume "get_response ext a w = (Inr c, w1) \<and> malformed c"
  then show "agent_loop ext a w = agent_loop ext (append_message a ''assistant'' c) w1"
    by (intro agent_loop_malformed) (auto simp: malformed_def)
next
  assume "\<forall>ms w. \<exists>c w1. get_response ext (a\<lparr>messages := ms\<rparr>) w = (Inr c, w1) \<and> malformed c"
  then show "call ext a prompt w = None" by (rule call_never_returns)
qed

theorem malformed_completion_retries_unbounded_witness:
  "get_response (ex_llm llm_stuck) ex_agent 0 = (Inr ''Thought: hmm'', 0) \<and> malformed ''Thought: hmm''
   \<and> agent_loop (ex_llm llm_stuck) ex_agent 0
       = agent_loop (ex_llm llm_stuck) (append_message ex_agent ''assistant'' ''Thought: hmm'') 0
   \<and> (\<forall>ms w. \<exists>c w1. get_response (ex_llm llm_stuck) (ex_agent\<lparr>messages := ms\<rparr>) w = (Inr c, w1) \<and> malformed c)
   \<and> call (ex_llm llm_stuck) ex_agent ''again'' 0 = None"
proof -
  have g: "get_response (ex_llm llm_stuck) ex_agent 0 = (Inr ''Thought: hmm'', 0)"
    by (simp add: get_response_def get_gemini_response_def ex_llm_def llm_stuck_def ex_agent_def)
  have m: "malformed ''Thought: hmm''" by (simp add: malformed_def)
  have s: "\<forall>ms w. \<exists>c w1. get_response (ex_llm llm_stuck) (ex_agent\<lparr>messages := ms\<rparr>) w = (Inr c, w1) \<and> malformed c"
    by (blast intro: llm_stuck_malformed)
  show ?thesis
    using malformed_completion_retries_unbounded[of "ex_llm llm_stuck" ex_agent 0 "''Thought: hmm''" 0 "''again''"]
      g m s by blast
qed

section \<open>Provider failure\<close>

text \<open>
  C3. A provider call that raises ends the loop with the conversation as it was before
  that call, and \<open>call\<close> answers with the fixed apology text instead of raising: its
  result is always a text. When it is the first provider call of the turn that raises,
  the conversation holds what it held before the turn plus the user message
  \<open>Patient: \<close> followed by the prompt, and no assistant message.
\<close>

theorem provider_failure_apology:
  "(get_response ext a w = (Inl e, w1) \<longrightarrow> agent_loop ext a w = Some (Inl e, a, w1))
   \<and> (get_response ext (append_message a ''user'' (''Patient: '' @ prompt)) w = (Inl e, w1) \<longrightarrow>
        call ext a prompt w =
          Some (apology,
                a\<lparr>messages := messages a @ [\<lparr>role = ''user'', content = ''Patient: '' @ prompt\<rparr>]\<rparr>,
                w1))"
proof (intro conjI impI)
  assume "get_response ext a w = (Inl e, w1)"
  then show "agent_loop ext a w = Some (Inl e, a, w1)" by (rule agent_loop_raise)
next
  assume "get_response ext (append_message a ''user'' (''Patient: '' @ prompt)) w = (Inl e, w1)"
  from agent_loop_raise[OF this]
  show "call ext a prompt w =
          Some (apology,
                a\<lparr>messages := messages a @ [\<lparr>role = ''user'', content = ''Patient: '' @ prompt\<rparr>]\<rparr>,
                w1)"
    by (simp add: call_def append_message_def)
qed

theorem provider_failure_apology_witness:
  "get_response (ex_llm llm_down) ex_agent 0 = (Inl (Exception ''quota exceeded''), 0)
   \<and> agent_loop (ex_llm llm_down) ex_agent 0 = Some (Inl (Exception ''quota exceeded''), ex_agent, 0)
   \<and> call (ex_llm llm_down) ex_agent ''hi'' 0 =
     Some (''I apologize, but I encountered a technical issue. Please try again or contact support if the problem persists.'',
           ex_agent\<lparr>messages := [\<lparr>role = ''system'', content = ''sys''\<rparr>,
                                 \<lparr>role = ''user'', content = ''Patient: hi''\<rparr>]\<rparr>,
           0)"
proof -
  have g0: "get_response (ex_llm llm_down) ex_agent 0 = (Inl (Exception ''quota exceeded''), 0)"
    by (simp add: get_response_def get_gemini_response_def ex_llm_def llm_down_def ex_agent_def)
  have g: "get_response (ex_llm llm_down) (append_message ex_agent ''user'' (''Patient: '' @ ''hi'')) 0
             = (Inl (Exception ''quota exceeded''), 0)"
    by (simp add: get_response_def get_gemini_response_def ex_llm_def llm_down_def
        append_message_def ex_agent_def)
  show ?thesis
    using provider_failure_apology[of "ex_llm llm_down" ex_agent 0 "Exception ''quota exceeded''" 0 "''hi''"]
      g0 g
    by (simp add: ex_agent_def apology_def)
qed

section \<open>Duplicate tool names\<close>

text \<open>
  C4, as stated: building the registry from two tools with the same normalized name
  reports the duplicate. It does not: the constructor succeeds on the tools named
  \<open>Medication Tool\<close> and \<open>medication tool\<close>, and the registry holds the second one alone.
\<close>

theorem duplicate_tool_name_counterexample:
  "\<not> isl (init ex_environ [ex_tool, ex_tool_dup] None None)
   \<and> format_tools [ex_tool, ex_tool_dup] = [(''medication_tool'', ex_tool_dup)]"
  by (simp add: init_def Let_def ex_environ_def format_tools_def dict_of_def name_ex_tool name_ex_tool_dup)

text \<open>
  C4, amended. Two tools with the same normalized name never make the construction
  fail (it fails only when neither API key is set): the registry keeps a single entry
  under that name, which holds the last tool of that name in the list, so the registry
  has fewer entries than there are tools.
\<close>

theorem duplicate_tool_name_last_wins:
  assumes "name t1 = name t2" and "\<forall>t\<in>set ts3. name t \<noteq> name t2"
    and "truthy (environ ''GOOGLE_API_KEY'') \<or> truthy (environ ''OPENAI_API_KEY'')"
  shows "\<exists>a. init environ (ts1 @ t1 # ts2 @ t2 # ts3) system_prompt pid = Inr a
           \<and> tools a = format_tools (ts1 @ t1 # ts2 @ t2 # ts3)
           \<and> dict_get (tools a) (name t2) = Some t2
           \<and> distinct (dict_keys (tools a))
           \<and> length (dict_keys (tools a)) < length (ts1 @ t1 # ts2 @ t2 # ts3)"
proof -
  let ?ts = "ts1 @ t1 # ts2 @ t2 # ts3"
  have g: "dict_get (format_tools ?ts) (name t2) = Some t2"
    using format_tools_get_last[OF assms(2), of "ts1 @ t1 # ts2"] by simp
  have k: "distinct (dict_keys (format_tools ?ts))" "set (dict_keys (format_tools ?ts)) = name ` set ?ts"
    using format_tools_keys[of ?ts] by auto
  have "\<not> distinct (map name ?ts)" using assms(1) by auto
  then have "card (set (map name ?ts)) \<noteq> length (map name ?ts)" using card_distinct by blast
  then have "card (set (map name ?ts)) < length ?ts"
    using card_length[of "map name ?ts"] by simp
  moreover have "length (dict_keys (format_tools ?ts)) = card (set (map name ?ts))"
    by (metis distinct_card k(1) k(2) list.set_map)
  ultimately have l: "length (dict_keys (format_tools ?ts)) < length ?ts" by simp
  show ?thesis using assms(3) g k(1) l by (auto simp: init_def Let_def)
qed

theorem duplicate_tool_name_last_wins_witness:
  "name ex_tool = name ex_tool_dup \<and> truthy (ex_environ ''GOOGLE_API_KEY'')
   \<and> (\<exists>a. init ex_environ [ex_tool, ex_tool_dup] None None = Inr a
          \<and> tools a = format_tools [ex_tool, ex_tool_dup]
          \<and> dict_get (tools a) (name ex_tool_dup) = Some ex_tool_dup
          \<and> distinct (dict_keys (tools a))
          \<and> length (dict_keys (tools a)) < 2)"
  using duplicate_tool_name_last_wins[of ex_tool ex_tool_dup "[]" ex_environ "[]" "[]" None None]
  by (simp add: name_ex_tool name_ex_tool_dup ex_environ_def numeral_2_eq_2)

section \<open>Dispatch to a registered tool\<close>

text \<open>
  C5, as stated: a completion with an \<open>Action: knownTool\<close> line and an
  \<open>Action Input: Y\<close> section has the tool run on \<open>Y\<close>. Not in general. With
  \<open>medication_tool\<close> registered: when a later \<open>Action:\<close> line names something else,
  the tool is not run at all (the count of tool runs stays 0); when there are two
  input sections \<open>a\<close> and \<open>b\<close>, the tool is run on \<open>a\<close>, newline, \<open>b\<close>; and the
  input \<open>line1\<close>, empty line, \<open>   line2  \<close> reaches the tool as \<open>line1\<close>, newline,
  \<open>line2\<close>.
\<close>

theorem known_tool_section_counterexample:
  "dict_get (tools ex_agent) (py_lower (py_strip ''medication_tool'')) = Some ex_tool
   \<and> tool_call (ex_llm llm_stuck) ex_agent
        ''Action: medication_tool\<newline>Action Input: a\<newline>Action: other'' 0
      = (''Observation: Tool 'other' not found. Available tools: ['medication_tool']'', 0)
   \<and> tool_call (ex_llm llm_stuck) ex_agent
        ''Action: medication_tool\<newline>Action Input: a\<newline>Observation: o\<newline>Action Input: b'' 0
      = (''Observation: text a\<newline>b'', 1)
   \<and> tool_call (ex_llm llm_stuck) ex_agent
        ''Action: medication_tool\<newline>Action Input: line1\<newline>\<newline>   line2  '' 0
      = (''Observation: text line1\<newline>line2'', 1)"
proof -
  have k: "py_lower (py_strip ''medication_tool'') = ''medication_tool''" by code_simp
  have g: "dict_get (tools ex_agent) (py_lower (py_strip ''medication_tool'')) = Some ex_tool"
    unfolding k by (rule get_ex_tool)
  have s1: "sectioned (py_split ''Action: medication_tool\<newline>Action Input: a\<newline>Action: other'' ''\<newline>'')
              [''Action: medication_tool''] [(''Action Input: a'', [''Action: other''], [])]"
    by (simp add: py_split_def sectioned_def)
  have a1: "last_action (py_split ''Action: medication_tool\<newline>Action Input: a\<newline>Action: other'' ''\<newline>'')
              = Some ''other''"
    by (simp add: py_split_def last_action_def py_strip_def py_isspace_def)
  have k1: "py_lower (py_strip ''other'') = ''other''" by code_simp
  have c1: "tool_call (ex_llm llm_stuck) ex_agent
        ''Action: medication_tool\<newline>Action Input: a\<newline>Action: other'' 0
      = (''Observation: Tool 'other' not found. Available tools: ['medication_tool']'', 0)"
    using tool_call_sectioned_not_found[OF s1 a1, of ex_agent "ex_llm llm_stuck" 0]
    unfolding k1 repr_keys_ex_agent by (simp add: tools_ex_agent dict_keys_def)
  have s2: "sectioned (py_split ''Action: medication_tool\<newline>Action Input: a\<newline>Observation: o\<newline>Action Input: b'' ''\<newline>'')
              [''Action: medication_tool'']
              [(''Action Input: a'', [], [''Observation: o'']), (''Action Input: b'', [], [])]"
    by (simp add: py_split_def sectioned_def)
  have a2: "last_action (py_split ''Action: medication_tool\<newline>Action Input: a\<newline>Observation: o\<newline>Action Input: b'' ''\<newline>'')
              = Some ''medication_tool''"
    by (simp add: py_split_def last_action_def py_strip_def py_isspace_def)
  have t2: "input_text [(''Action Input: a'', [], [''Observation: o'']), (''Action Input: b'', [], [])]
              = ''a\<newline>b''"
    by (simp add: input_text_def contribution_def py_strip_def py_isspace_def)
  have c2: "tool_call (ex_llm llm_stuck) ex_agent
        ''Action: medication_tool\<newline>Action Input: a\<newline>Observation: o\<newline>Action Input: b'' 0
      = (''Observation: text a\<newline>b'', 1)"
    using tool_call_sectioned[OF s2 a2 _ g, of "ex_llm llm_stuck" 0]
    unfolding t2 by (simp add: ex_json_loads_text run_ex_tool)
  have s3: "sectioned (py_split ''Action: medication_tool\<newline>Action Input: line1\<newline>\<newline>   line2  '' ''\<newline>'')
              [''Action: medication_tool''] [(''Action Input: line1'', ['''', ''   line2  ''], [])]"
    by (simp add: py_split_def sectioned_def)
  have a3: "last_action (py_split ''Action: medication_tool\<newline>Action Input: line1\<newline>\<newline>   line2  '' ''\<newline>'')
              = Some ''medication_tool''"
    by (simp add: py_split_def last_action_def py_strip_def py_isspace_def)
  have t3: "input_text [(''Action Input: line1'', ['''', ''   line2  ''], [])] = ''line1\<newline>line2''"
    by (simp add: input_text_def contribution_def py_strip_def py_isspace_def)
  have c3: "tool_call (ex_llm llm_stuck) ex_agent
        ''Action: medication_tool\<newline>Action Input: line1\<newline>\<newline>   line2  '' 0
      = (''Observation: text line1\<newline>line2'', 1)"
    using tool_call_sectioned[OF s3 a3 _ g, of "ex_llm llm_stuck" 0]
    unfolding t3 by (simp add: ex_json_loads_text run_ex_tool)
  show ?thesis using g c1 c2 c3 by (simp only: simp_thms)
qed

text \<open>
  C5, amended. Let the last line of the completion that begins with \<open>Action:\<close> give,
  without its markers and trimmed, a name that, trimmed and lowercased, is registered.
  If the name is not empty, \<open>tool_call\<close> runs the tool registered under it once, on
  the input text decoded by \<open>json.loads\<close> when that succeeds and on the input text
  itself otherwise, and turns the outcome into the observation; the input text is the
  text of all input sections of the completion, every line trimmed and the empty ones
  left out, joined by newlines. When the input text is empty and \<open>json.loads\<close>
  rejects the empty text, the tool receives the empty string. If the name is empty, no
  tool is run and the observation is the not-found one.
\<close>

theorem known_tool_dispatch:
  assumes "last_action (py_split response ''\<newline>'') = Some nm"
    and "dict_get (tools a) (py_lower (py_strip nm)) = Some t"
  shows "(\<forall>idle0 secs. sectioned (py_split response ''\<newline>'') idle0 secs \<longrightarrow>
            (nm \<noteq> [] \<longrightarrow>
               tool_call ext a response w =
                 (case run t (case json_loads ext (input_text secs) of
                                Some j \<Rightarrow> Structured j
                              | None \<Rightarrow> Raw (input_text secs)) w of
                    (Inr tool_observation, w') \<Rightarrow> (''Observation: '' @ tool_observation, w')
                  | (Inl (Exception e), w') \<Rightarrow>
                      (''Observation: There was an error executing the tool.\<newline>Error: '' @ e, w')))
            \<and> (nm \<noteq> [] \<and> input_text secs = [] \<and> json_loads ext [] = None \<longrightarrow>
                 tool_call ext a response w =
                   (case run t (Raw []) w of
                      (Inr tool_observation, w') \<Rightarrow> (''Observation: '' @ tool_observation, w')
                    | (Inl (Exception e), w') \<Rightarrow>
                        (''Observation: There was an error executing the tool.\<newline>Error: '' @ e, w'))))
         \<and> (\<exists>idle0 secs. sectioned (py_split response ''\<newline>'') idle0 secs)
         \<and> (nm = [] \<longrightarrow>
              tool_call ext a response w =
                (''Observation: Tool '' @ [CHR 0x27] @ [CHR 0x27]
                   @ '' not found. Available tools: '' @ py_repr_list (dict_keys (tools a)), w))"
proof -
  obtain i0 ss where s0: "sectioned (py_split response ''\<newline>'') i0 ss"
    using sections_exist by blast
  have main: "tool_call ext a response w =
                 (case run t (case json_loads ext (input_text secs) of
                                Some j \<Rightarrow> Structured j
                              | None \<Rightarrow> Raw (input_text secs)) w of
                    (Inr tool_observation, w') \<Rightarrow> (''Observation: '' @ tool_observation, w')
                  | (Inl (Exception e), w') \<Rightarrow>
                      (''Observation: There was an error executing the tool.\<newline>Error: '' @ e, w'))"
    if "sectioned (py_split response ''\<newline>'') idle0 secs" "nm \<noteq> []" for idle0 secs
    using tool_call_sectioned[OF that(1) assms(1) that(2) assms(2), of ext w]
    by (simp add: decode_input_def)
  have empty: "tool_call ext a response w =
                   (case run t (Raw []) w of
                      (Inr tool_observation, w') \<Rightarrow> (''Observation: '' @ tool_observation, w')
                    | (Inl (Exception e), w') \<Rightarrow>
                        (''Observation: There was an error executing the tool.\<newline>Error: '' @ e, w'))"
    if "sectioned (py_split response ''\<newline>'') idle0 secs" "nm \<noteq> []" "input_text secs = []"
      "json_loads ext [] = None" for idle0 secs
    using main[OF that(1,2)] that(3,4) by simp
  have none: "tool_call ext a response w =
                (''Observation: Tool '' @ [CHR 0x27] @ [CHR 0x27]
                   @ '' not found. Available tools: '' @ py_repr_list (dict_keys (tools a)), w)"
    if "nm = []"
    using tool_call_sectioned_not_found[OF s0 assms(1), of a ext w] that by simp
  show ?thesis using main empty none s0 by blast
qed

theorem known_tool_dispatch_witness:
  "last_action (py_split (''Thought: ok\<newline>Action: Medication_Tool \<newline>Action Input: '' @ ex_request @ ''\<newline>Observation:'') ''\<newline>'')
     = Some ''Medication_Tool''
   \<and> dict_get (tools ex_agent) (py_lower (py_strip ''Medication_Tool'')) = Some ex_tool
   \<and> sectioned (py_split (''Thought: ok\<newline>Action: Medication_Tool \<newline>Action Input: '' @ ex_request @ ''\<newline>Observation:'') ''\<newline>'')
        [''Thought: ok'', ''Action: Medication_Tool ''] [(''Action Input: '' @ ex_request, [], [''Observation:''])]
   \<and> json_loads (ex_llm llm_stuck) ex_request = Some [(''action'', ''list''), (''patient_id'', ''p1'')]
   \<and> tool_call (ex_llm llm_stuck) ex_agent
        (''Thought: ok\<newline>Action: Medication_Tool \<newline>Action Input: '' @ ex_request @ ''\<newline>Observation:'') 0
      = (''Observation: keys action,patient_id'', 1)
   \<and> tool_call (ex_llm llm_stuck) ex_agent
        ''Action: medication_tool\<newline>Action Input: refill\<newline>  for p1\<newline>Observation: x\<newline>Action Input: now'' 0
      = (''Observation: text refill\<newline>for p1\<newline>now'', 1)
   \<and> json_loads (ex_llm llm_stuck) [] = None
   \<and> tool_call (ex_llm llm_stuck) ex_agent ''Action: medication_tool\<newline>Action Input: '' 0
      = (''Observation: text '', 1)"
proof -
  let ?r1 = "''Thought: ok\<newline>Action: Medication_Tool \<newline>Action Input: '' @ ex_request @ ''\<newline>Observation:''"
  let ?r2 = "''Action: medication_tool\<newline>Action Input: refill\<newline>  for p1\<newline>Observation: x\<newline>Action Input: now''"
  let ?r3 = "''Action: medication_tool\<newline>Action Input: ''"
  have l1: "py_split ?r1 ''\<newline>''
      = [''Thought: ok'', ''Action: Medication_Tool '', ''Action Input: '' @ ex_request, ''Observation:'']"
    by (simp add: py_split_def ex_request_def dq_def)
  have a1: "last_action (py_split ?r1 ''\<newline>'') = Some ''Medication_Tool''"
    unfolding l1 by (simp add: last_action_def py_strip_def py_isspace_def ex_request_def dq_def)
  have k1: "py_lower (py_strip ''Medication_Tool'') = ''medication_tool''" by code_simp
  have g1: "dict_get (tools ex_agent) (py_lower (py_strip ''Medication_Tool'')) = Some ex_tool"
    unfolding k1 by (rule get_ex_tool)
  have s1: "sectioned (py_split ?r1 ''\<newline>'') [''Thought: ok'', ''Action: Medication_Tool '']
              [(''Action Input: '' @ ex_request, [], [''Observation:''])]"
    unfolding l1 by (simp add: sectioned_def)
  have t1: "input_text [(''Action Input: '' @ ex_request, [], [''Observation:''])] = ex_request"
    by (simp add: input_text_def contribution_def py_strip_def py_isspace_def ex_request_def dq_def)
  have j1: "json_loads (ex_llm llm_stuck) ex_request = Some [(''action'', ''list''), (''patient_id'', ''p1'')]"
    by (rule ex_json_loads_request)
  have n1: "''Medication_Tool'' \<noteq> []" by simp
  have c1: "tool_call (ex_llm llm_stuck) ex_agent ?r1 0 = (''Observation: keys action,patient_id'', 1)"
    using known_tool_dispatch[OF a1 g1, of "ex_llm llm_stuck" 0, THEN conjunct1, THEN spec,
        THEN spec, THEN mp, OF s1, THEN conjunct1, THEN mp, OF n1]
    unfolding t1 j1 by (simp add: run_ex_tool dict_keys_def)
  have k2: "py_lower (py_strip ''medication_tool'') = ''medication_tool''" by code_simp
  have g2: "dict_get (tools ex_agent) (py_lower (py_strip ''medication_tool'')) = Some ex_tool"
    unfolding k2 by (rule get_ex_tool)
  have a2: "last_action (py_split ?r2 ''\<newline>'') = Some ''medication_tool''"
    by (simp add: py_split_def last_action_def py_strip_def py_isspace_def)
  have s2: "sectioned (py_split ?r2 ''\<newline>'') [''Action: medication_tool'']
              [(''Action Input: refill'', [''  for p1''], [''Observation: x'']), (''Action Input: now'', [], [])]"
    by (simp add: py_split_def sectioned_def)
  have t2: "input_text [(''Action Input: refill'', [''  for p1''], [''Observation: x'']), (''Action Input: now'', [], [])]
              = ''refill\<newline>for p1\<newline>now''"
    by (simp add: input_text_def contribution_def py_strip_def py_isspace_def)
  have j2: "json_loads (ex_llm llm_stuck) ''refill\<newline>for p1\<newline>now'' = None"
    by (simp add: ex_llm_def ex_json_loads_def)
  have n2: "''medication_tool'' \<noteq> []" by simp
  have c2: "tool_call (ex_llm llm_stuck) ex_agent ?r2 0 = (''Observation: text refill\<newline>for p1\<newline>now'', 1)"
    using known_tool_dispatch[OF a2 g2, of "ex_llm llm_stuck" 0, THEN conjunct1, THEN spec,
        THEN spec, THEN mp, OF s2, THEN conjunct1, THEN mp, OF n2]
    unfolding t2 j2 by (simp add: run_ex_tool)
  have a3: "last_action (py_split ?r3 ''\<newline>'') = Some ''medication_tool''"
    by (simp add: py_split_def last_action_def py_strip_def py_isspace_def)
  have s3: "sectioned (py_split ?r3 ''\<newline>'') [''Action: medication_tool''] [(''Action Input: '', [], [])]"
    by (simp add: py_split_def sectioned_def)
  have t3: "input_text [(''Action Input: '', [], [])] = []"
    by (simp add: input_text_def contribution_def py_strip_def py_isspace_def)
  have j3: "json_loads (ex_llm llm_stuck) [] = None" by (rule ex_json_loads_empty)
  have c3: "tool_call (ex_llm llm_stuck) ex_agent ?r3 0 = (''Observation: text '', 1)"
    using known_tool_dispatch[OF a3 g2, of "ex_llm llm_stuck" 0, THEN conjunct1, THEN spec,
        THEN spec, THEN mp, OF s3, THEN conjunct2, THEN mp, OF conjI[OF n2 conjI[OF t3 j3]]]
    by (simp add: run_ex_tool)
  show ?thesis using a1 g1 s1 j1 c1 c2 j3 c3 by (simp only: simp_thms)
qed

section \<open>Dispatch to an unknown tool\<close>

text \<open>
  C6. When the parsed action has no tool name, or a name that, trimmed and lowercased,
  is not a key of the registry, \<open>tool_call\<close> returns the observation that says the
  tool was not found and lists the keys of the registry, and runs nothing. In the loop
  this observation is appended after the completion as a user message and the loop goes
  on with the next completion request.
\<close>

theorem unknown_tool_observation:
  fixes ext :: "('j, 'w) externals"
  defines "not_found \<equiv> (\<lambda>action keys. ''Observation: Tool '' @ [CHR 0x27] @ py_format action @ [CHR 0x27]
              @ '' not found. Available tools: '' @ py_repr_list keys)"
  assumes "parse_action_string ext response = (action, action_input)"
    and "action = None \<or> py_lower (py_strip (the action)) \<notin> set (dict_keys (tools a))"
  shows "tool_call ext a response w = (not_found action (dict_keys (tools a)), w)
       \<and> (get_response ext a w = (Inr response, w1) \<and> \<not> contains response ''Response:''
            \<and> contains response ''Action:'' \<and> contains response ''Action Input:'' \<longrightarrow>
          agent_loop ext a w =
            agent_loop ext
              (a\<lparr>messages := messages a @
                   [\<lparr>role = ''assistant'', content = response\<rparr>,
                    \<lparr>role = ''user'', content = not_found action (dict_keys (tools a))\<rparr>]\<rparr>) w1)"
proof (intro conjI impI)
  show "tool_call ext a response w = (not_found action (dict_keys (tools a)), w)"
    unfolding not_found_def by (rule tool_call_not_found[OF assms(2,3)])
next
  assume h: "get_response ext a w = (Inr response, w1) \<and> \<not> contains response ''Response:''
            \<and> contains response ''Action:'' \<and> contains response ''Action Input:''"
  have "tools (append_message a ''assistant'' response) = tools a" by (simp add: append_message_def)
  then have t: "tool_call ext (append_message a ''assistant'' response) response w1
           = (not_found action (dict_keys (tools a)), w1)"
    unfolding not_found_def
    using tool_call_not_found[OF assms(2), of "append_message a ''assistant'' response" w1] assms(3)
    by simp
  from h have "agent_loop ext a w =
     agent_loop ext (append_message (append_message a ''assistant'' response) ''user''
                       (not_found action (dict_keys (tools a)))) w1"
    by (intro agent_loop_tool_step[OF _ _ _ _ t]) simp_all
  then show "agent_loop ext a w =
            agent_loop ext
              (a\<lparr>messages := messages a @
                   [\<lparr>role = ''assistant'', content = response\<rparr>,
                    \<lparr>role = ''user'', content = not_found action (dict_keys (tools a))\<rparr>]\<rparr>) w1"
    by (simp add: append_message_def)
qed

theorem unknown_tool_observation_witness:
  "parse_action_string (ex_llm llm_unknown) ''Action: unknown_tool\<newline>Action Input: x''
     = (Some ''unknown_tool'', Raw ''x'')
   \<and> tool_call (ex_llm llm_unknown) (append_message ex_agent ''user'' ''Patient: hi'')
        ''Action: unknown_tool\<newline>Action Input: x'' 0
     = (''Observation: Tool 'unknown_tool' not found. Available tools: ['medication_tool']'', 0)
   \<and> call (ex_llm llm_unknown) ex_agent ''hi'' 0
     = Some (''done'',
             ex_agent\<lparr>messages :=
               [\<lparr>role = ''system'', content = ''sys''\<rparr>,
                \<lparr>role = ''user'', content = ''Patient: hi''\<rparr>,
                \<lparr>role = ''assistant'', content = ''Action: unknown_tool\<newline>Action Input: x''\<rparr>,
                \<lparr>role = ''user'', content = ''Observation: Tool 'unknown_tool' not found. Available tools: ['medication_tool']''\<rparr>,
                \<lparr>role = ''assistant'', content = ''Response: done''\<rparr>]\<rparr>,
             0)"
proof -
  let ?ext = "ex_llm llm_unknown"
  let ?R = "''Action: unknown_tool\<newline>Action Input: x''"
  let ?a0 = "append_message ex_agent ''user'' ''Patient: hi''"
  let ?nf = "''Observation: Tool 'unknown_tool' not found. Available tools: ['medication_tool']''"
  let ?a2 = "?a0\<lparr>messages := messages ?a0 @
                   [\<lparr>role = ''assistant'', content = ?R\<rparr>, \<lparr>role = ''user'', content = ?nf\<rparr>]\<rparr>"
  have p: "parse_action_string ?ext ?R = (Some ''unknown_tool'', Raw ''x'')"
    by (simp add: parse_action_string_def py_split_def py_strip_def py_isspace_def Let_def
        decode_input_def ex_llm_def ex_json_loads_def)
  have k: "py_lower (py_strip ''unknown_tool'') = ''unknown_tool''" by code_simp
  have t0: "tools ?a0 = tools ex_agent" by (simp add: append_message_def)
  have u: "Some ''unknown_tool'' = None
             \<or> py_lower (py_strip (the (Some ''unknown_tool''))) \<notin> set (dict_keys (tools ?a0))"
    by (simp add: k t0 tools_ex_agent dict_keys_def)
  have g: "get_response ?ext ?a0 0 = (Inr ?R, 0)"
    by (simp add: get_response_def get_gemini_response_def ex_llm_def llm_unknown_def
        append_message_def ex_agent_def)
  have nf: "''Observation: Tool '' @ [CHR 0x27] @ py_format (Some ''unknown_tool'') @ [CHR 0x27]
              @ '' not found. Available tools: '' @ py_repr_list (dict_keys (tools ?a0)) = ?nf"
    by (simp add: t0 repr_keys_ex_agent)
  note t = unknown_tool_observation[OF p u, of 0 0, unfolded nf]
  have c1: "tool_call ?ext ?a0 ?R 0 = (?nf, 0)" using t by blast
  have "agent_loop ?ext ?a0 0 = agent_loop ?ext ?a2 0"
    using t g by simp
  moreover have g2: "get_response ?ext ?a2 0 = (Inr ''Response: done'', 0)"
    by (simp add: get_response_def get_gemini_response_def ex_llm_def llm_unknown_def
        append_message_def ex_agent_def)
  moreover have "contains ''Response: done'' ''Response:''" by simp
  ultimately have "agent_loop ?ext ?a0 0
      = Some (Inr ''done'', append_message ?a2 ''assistant'' ''Response: done'', 0)"
    using agent_loop_final[of ?ext ?a2 0 "''Response: done''" 0] py_split_last_done by simp
  then have c2: "call ?ext ex_agent ''hi'' 0
      = Some (''done'', append_message ?a2 ''assistant'' ''Response: done'', 0)"
    by (simp add: call_def)
  show ?thesis
    using p c1 c2 by (simp add: append_message_def ex_agent_def)
qed

section \<open>Accumulating the action input\<close>




section \<open>The system message\<close>

text \<open>
  C8. The first message is the system message throughout: the constructor makes the
  conversation that one message; \<open>call\<close> only appends, so a returning call leaves the
  first message (and everything before the call) in place; \<open>get_conversation_history\<close>
  reads the messages and changes nothing; \<open>clear_conversation\<close> cuts the conversation
  back to its first message alone and returns the confirmation text.
\<close>

theorem system_message_first:
  "(init environ ts system_prompt pid = Inr a0 \<longrightarrow>
      (\<exists>c. messages a0 = [\<lparr>role = ''system'', content = c\<rparr>]))
   \<and> (messages a \<noteq> [] \<and> call ext a prompt w = Some (r, a', w') \<longrightarrow>
      hd (messages a') = hd (messages a) \<and> (\<exists>ms. messages a' = messages a @ ms))
   \<and> get_conversation_history a = messages a
   \<and> (messages a \<noteq> [] \<longrightarrow>
      clear_conversation a = Inr (''Conversation history cleared.'', a\<lparr>messages := [hd (messages a)]\<rparr>))"
proof (intro conjI impI)
  assume "init environ ts system_prompt pid = Inr a0"
  then show "\<exists>c. messages a0 = [\<lparr>role = ''system'', content = c\<rparr>]"
    by (auto simp: init_def Let_def split: if_splits)
next
  assume h: "messages a \<noteq> [] \<and> call ext a prompt w = Some (r, a', w')"
  from call_extends[OF conjunct2[OF h]]
  obtain ms where "a' = a\<lparr>messages := messages a @ \<lparr>role = ''user'', content = ''Patient: '' @ prompt\<rparr> # ms\<rparr>"
    by (rule exE)
  then have m: "messages a' = messages a @ \<lparr>role = ''user'', content = ''Patient: '' @ prompt\<rparr> # ms" by simp
  then show "hd (messages a') = hd (messages a)" using h by simp
  from m show "\<exists>ms. messages a' = messages a @ ms" by blast
next
  show "get_conversation_history a = messages a" by (simp add: get_conversation_history_def)
next
  assume "messages a \<noteq> []"
  then show "clear_conversation a = Inr (''Conversation history cleared.'', a\<lparr>messages := [hd (messages a)]\<rparr>)"
    by (cases "messages a") (simp_all add: clear_conversation_def)
qed

theorem system_message_first_witness:
  "init ex_environ [ex_tool] (Some ''sys'') None
     = Inr (projr (init ex_environ [ex_tool] (Some ''sys'') None :: exn + ((string, string) py_dict, nat) agent))
   \<and> messages (projr (init ex_environ [ex_tool] (Some ''sys'') None :: exn + ((string, string) py_dict, nat) agent))
       = [\<lparr>role = ''system'', content = ''sys''\<rparr>]
   \<and> messages ex_agent = [\<lparr>role = ''system'', content = ''sys''\<rparr>]
   \<and> call (ex_llm llm_final) ex_agent ''hi'' 0 =
       Some (''Take your pill at 8am.'',
             ex_agent\<lparr>messages := [\<lparr>role = ''system'', content = ''sys''\<rparr>,
                                   \<lparr>role = ''user'', content = ''Patient: hi''\<rparr>,
                                   \<lparr>role = ''assistant'', content = ''Action: medication_tool\<newline>Response: no Response: Take your pill at 8am. ''\<rparr>]\<rparr>,
             0)
   \<and> get_conversation_history ex_agent = [\<lparr>role = ''system'', content = ''sys''\<rparr>]
   \<and> clear_conversation ex_agent
       = Inr (''Conversation history cleared.'', ex_agent\<lparr>messages := [\<lparr>role = ''system'', content = ''sys''\<rparr>]\<rparr>)"
proof -
  let ?a0 = "projr (init ex_environ [ex_tool] (Some ''sys'') None :: exn + ((string, string) py_dict, nat) agent)"
  let ?a' = "ex_agent\<lparr>messages := [\<lparr>role = ''system'', content = ''sys''\<rparr>,
                                   \<lparr>role = ''user'', content = ''Patient: hi''\<rparr>,
                                   \<lparr>role = ''assistant'', content = ''Action: medication_tool\<newline>Response: no Response: Take your pill at 8am. ''\<rparr>]\<rparr>"
  have i: "init ex_environ [ex_tool] (Some ''sys'') None = Inr ?a0"
    by (simp add: init_def Let_def ex_environ_def)
  have i': "messages ?a0 = [\<lparr>role = ''system'', content = ''sys''\<rparr>]"
    by (simp add: init_def Let_def ex_environ_def)
  have m: "messages ex_agent = [\<lparr>role = ''system'', content = ''sys''\<rparr>]"
    by (simp add: ex_agent_def)
  note t = system_message_first[of ex_environ "[ex_tool]" "Some ''sys''" None ?a0 ex_agent
      "ex_llm llm_final" "''hi''" 0 "''Take your pill at 8am.''" ?a' 0]
  show ?thesis
    using t i i' m ex_call_final by simp
qed

section \<open>Several action inputs in one completion\<close>

text \<open>
  C9. Whatever the completion, its lines are cut in one way or another into the lines
  before the first \<open>Action Input:\<close> line and the input sections. The parsed tool name
  is read off the last \<open>Action:\<close> line alone, while the argument is the text of every
  section (its \<open>Action Input:\<close> line and the lines that continue it), in order, joined
  by newlines into one text, which is then decoded.
\<close>

theorem action_inputs_accumulate:
  "(\<forall>idle0 secs. sectioned (py_split response ''\<newline>'') idle0 secs \<longrightarrow>
      parse_action_string ext response
        = (last_action (py_split response ''\<newline>''),
           decode_input ext (py_join ''\<newline>'' (concat (map section_text secs)))))
   \<and> (\<exists>idle0 secs. sectioned (py_split response ''\<newline>'') idle0 secs)"
  using parse_action_string_sectioned[of response _ _ ext] sections_exist[of "py_split response ''\<newline>''"]
  by (simp add: input_text_def)

theorem action_inputs_accumulate_witness:
  "sectioned
     (py_split ''Thought: check\<newline>Action: first_tool\<newline>Action Input: x\<newline>  more\<newline>Observation: seen\<newline>ignored\<newline>Action: medication_tool\<newline>Action Input: y\<newline>Action Input: z'' ''\<newline>'')
     [''Thought: check'', ''Action: first_tool'']
     [(''Action Input: x'', [''  more''], [''Observation: seen'', ''ignored'', ''Action: medication_tool'']),
      (''Action Input: y'', [], []),
      (''Action Input: z'', [], [])]
   \<and> parse_action_string (ex_llm llm_stuck)
        ''Thought: check\<newline>Action: first_tool\<newline>Action Input: x\<newline>  more\<newline>Observation: seen\<newline>ignored\<newline>Action: medication_tool\<newline>Action Input: y\<newline>Action Input: z''
     = (Some ''medication_tool'', Raw ''x\<newline>more\<newline>y\<newline>z'')"
proof -
  let ?r = "''Thought: check\<newline>Action: first_tool\<newline>Action Input: x\<newline>  more\<newline>Observation: seen\<newline>ignored\<newline>Action: medication_tool\<newline>Action Input: y\<newline>Action Input: z''"
  let ?secs = "[(''Action Input: x'', [''  more''], [''Observation: seen'', ''ignored'', ''Action: medication_tool'']),
      (''Action Input: y'', [], []),
      (''Action Input: z'', [], [])]"
  have l: "py_split ?r ''\<newline>'' = [''Thought: check'', ''Action: first_tool'', ''Action Input: x'', ''  more'',
      ''Observation: seen'', ''ignored'', ''Action: medication_tool'', ''Action Input: y'', ''Action Input: z'']"
    by (simp add: py_split_def)
  have s: "sectioned (py_split ?r ''\<newline>'') [''Thought: check'', ''Action: first_tool''] ?secs"
    unfolding l by (simp add: sectioned_def)
  have a: "last_action (py_split ?r ''\<newline>'') = Some ''medication_tool''"
    unfolding l by (simp add: last_action_def py_strip_def py_isspace_def)
  have t: "py_join ''\<newline>'' (concat (map section_text ?secs)) = ''x\<newline>more\<newline>y\<newline>z''"
    by (simp add: contribution_def py_strip_def py_isspace_def)
  have d: "decode_input (ex_llm llm_stuck) ''x\<newline>more\<newline>y\<newline>z'' = Raw ''x\<newline>more\<newline>y\<newline>z''"
    by (simp add: decode_input_def ex_llm_def ex_json_loads_def)
  show ?thesis
    using action_inputs_accumulate[of ?r "ex_llm llm_stuck"] s a t d by simp
qed

section \<open>Tool names with spaces\<close>

text \<open>
  C10, as stated: for every tool registered under a name with a space, an \<open>Action:\<close>
  line with the spaced name yields the not-found observation. Not when the only space
  is at an end of the name: with the tools named \<open>Refill \<close> (registered as
  \<open>refill_\<close>) and \<open>refill\<close>, the line \<open>Action: Refill \<close> is trimmed to \<open>Refill\<close>
  and runs the tool \<open>refill\<close>.
\<close>

theorem spaced_name_counterexample:
  "name ex_tool_trailing = ''refill_'' \<and> name ex_tool_refill = ''refill''
   \<and> tool_call (ex_llm llm_stuck) ex_agent_refill ''Action: Refill \<newline>Action Input: x'' 0
       = (''Observation: status shown'', 1)"
proof -
  have s: "sectioned (py_split ''Action: Refill \<newline>Action Input: x'' ''\<newline>'')
             [''Action: Refill ''] [(''Action Input: x'', [], [])]"
    by (simp add: py_split_def sectioned_def)
  have a: "last_action (py_split ''Action: Refill \<newline>Action Input: x'' ''\<newline>'') = Some ''Refill''"
    by (simp add: py_split_def last_action_def py_strip_def py_isspace_def)
  have k: "py_lower (py_strip ''Refill'') = ''refill''" by code_simp
  have g: "dict_get (tools ex_agent_refill) (py_lower (py_strip ''Refill'')) = Some ex_tool_refill"
    by (simp add: k ex_agent_refill_def format_tools_def dict_of_def dict_get_def
        name_ex_tool_trailing name_ex_tool_refill)
  have r: "run ex_tool_refill x w = (Inr ''status shown'', Suc w)" for x w
    by (simp add: ex_tool_refill_def model_post_init_def)
  have "tool_call (ex_llm llm_stuck) ex_agent_refill ''Action: Refill \<newline>Action Input: x'' 0
       = (''Observation: status shown'', 1)"
    using tool_call_sectioned[OF s a _ g, of "ex_llm llm_stuck" 0] by (simp add: r)
  then show ?thesis by (simp add: name_ex_tool_trailing name_ex_tool_refill)
qed

text \<open>
  C10, amended. Let the registry hold constructed tools, one of them made from a name
  with a space, and let the last \<open>Action:\<close> line of the completion be \<open>Action: \<close>
  followed by that original name. The tool is registered under its normalized name.
  The parsed name is the original name without \<open>Action:\<close> markers and trimmed (the
  trimmed original name when it has no such marker), and the lookup key, the parsed
  name trimmed and lowercased, is never the tool's registered name. When a space is
  left in the parsed name the key is not registered. When the parsed name is empty or
  the key is not registered, the result is the not-found observation, which quotes the
  parsed name and lists the registered names, and no tool is run. When the parsed name
  is not empty and a tool is registered under the key, it is another tool, named by
  the key, and \<open>tool_call\<close> runs that one on the parsed input.
\<close>

theorem spaced_name_lookup:
  assumes "tools a = format_tools (map model_post_init raws)"
    and "raw \<in> set raws"
    and "CHR '' '' \<in> set (name raw)"
    and "py_split response ''\<newline>'' = pre @ (''Action: '' @ name raw) # post"
    and "\<forall>l\<in>set post. \<not> startswith l ''Action:''"
  defines "spoken \<equiv> py_strip (py_replace (name raw) ''Action:'' '''')"
  shows "name (model_post_init raw) \<in> set (dict_keys (tools a))
       \<and> fst (parse_action_string ext response) = Some spoken
       \<and> (\<not> contains (name raw) ''Action:'' \<longrightarrow> spoken = py_strip (name raw))
       \<and> py_lower (py_strip spoken) \<noteq> name (model_post_init raw)
       \<and> (CHR '' '' \<in> set spoken \<longrightarrow> py_lower (py_strip spoken) \<notin> set (dict_keys (tools a)))
       \<and> (spoken = [] \<or> py_lower (py_strip spoken) \<notin> set (dict_keys (tools a)) \<longrightarrow>
            tool_call ext a response w =
              (''Observation: Tool '' @ [CHR 0x27] @ spoken @ [CHR 0x27]
                 @ '' not found. Available tools: '' @ py_repr_list (dict_keys (tools a)), w))
       \<and> (\<forall>t. spoken \<noteq> [] \<and> dict_get (tools a) (py_lower (py_strip spoken)) = Some t \<longrightarrow>
            name t = py_lower (py_strip spoken) \<and> t \<noteq> model_post_init raw
            \<and> tool_call ext a response w =
                (case run t (snd (parse_action_string ext response)) w of
                   (Inr tool_observation, w') \<Rightarrow> (''Observation: '' @ tool_observation, w')
                 | (Inl (Exception e), w') \<Rightarrow>
                     (''Observation: There was an error executing the tool.\<newline>Error: '' @ e, w')))"
proof -
  have keys: "set (dict_keys (tools a)) = name ` set (map model_post_init raws)"
    using format_tools_keys[of "map model_post_init raws"] assms(1) by simp
  have c1: "name (model_post_init raw) \<in> set (dict_keys (tools a))"
    unfolding keys using assms(2) by simp
  have la: "last_action (py_split response ''\<newline>'') = Some spoken"
    unfolding assms(4) spoken_def by (rule last_action_line[OF assms(5)])
  obtain i0 ss where s: "sectioned (py_split response ''\<newline>'') i0 ss"
    using sections_exist by blast
  have pas: "parse_action_string ext response = (Some spoken, decode_input ext (input_text ss))"
    using parse_action_string_sectioned[OF s, of ext] la by simp
  have c2: "fst (parse_action_string ext response) = Some spoken" using pas by simp
  have c3: "\<not> contains (name raw) ''Action:'' \<longrightarrow> spoken = py_strip (name raw)"
    unfolding spoken_def by (simp add: py_replace_absent)
  have c4: "py_lower (py_strip spoken) \<noteq> name (model_post_init raw)"
    using spoken_key_differs[OF assms(3)] unfolding spoken_def by (simp add: model_post_init_def)
  have c5: "CHR '' '' \<in> set spoken \<longrightarrow> py_lower (py_strip spoken) \<notin> set (dict_keys (tools a))"
  proof
    assume "CHR '' '' \<in> set spoken"
    moreover have "py_strip spoken = spoken" unfolding spoken_def by (rule py_strip_idem)
    ultimately have "CHR '' '' \<in> set (py_lower (py_strip spoken))" by (simp add: py_lower_space)
    moreover have "\<forall>k\<in>set (dict_keys (tools a)). CHR '' '' \<notin> set k"
      unfolding keys by (auto simp: name_model_post_init_no_space)
    ultimately show "py_lower (py_strip spoken) \<notin> set (dict_keys (tools a))" by blast
  qed
  have c6: "spoken = [] \<or> py_lower (py_strip spoken) \<notin> set (dict_keys (tools a)) \<longrightarrow>
            tool_call ext a response w =
              (''Observation: Tool '' @ [CHR 0x27] @ spoken @ [CHR 0x27]
                 @ '' not found. Available tools: '' @ py_repr_list (dict_keys (tools a)), w)"
    using tool_call_sectioned_not_found[OF s la, of a ext w] by blast
  have c7: "\<forall>t. spoken \<noteq> [] \<and> dict_get (tools a) (py_lower (py_strip spoken)) = Some t \<longrightarrow>
            name t = py_lower (py_strip spoken) \<and> t \<noteq> model_post_init raw
            \<and> tool_call ext a response w =
                (case run t (snd (parse_action_string ext response)) w of
                   (Inr tool_observation, w') \<Rightarrow> (''Observation: '' @ tool_observation, w')
                 | (Inl (Exception e), w') \<Rightarrow>
                     (''Observation: There was an error executing the tool.\<newline>Error: '' @ e, w'))"
  proof (intro allI impI)
    fix t
    assume h: "spoken \<noteq> [] \<and> dict_get (tools a) (py_lower (py_strip spoken)) = Some t"
    then have n: "name t = py_lower (py_strip spoken)"
      using format_tools_get_name[of "map model_post_init raws" "py_lower (py_strip spoken)" t]
      unfolding assms(1) by simp
    then have d: "t \<noteq> model_post_init raw" using c4 by auto
    have "tool_call ext a response w =
                (case run t (decode_input ext (input_text ss)) w of
                   (Inr tool_observation, w') \<Rightarrow> (''Observation: '' @ tool_observation, w')
                 | (Inl (Exception e), w') \<Rightarrow>
                     (''Observation: There was an error executing the tool.\<newline>Error: '' @ e, w'))"
      using tool_call_found[OF pas, of a t w] h by simp
    then show "name t = py_lower (py_strip spoken) \<and> t \<noteq> model_post_init raw
            \<and> tool_call ext a response w =
                (case run t (snd (parse_action_string ext response)) w of
                   (Inr tool_observation, w') \<Rightarrow> (''Observation: '' @ tool_observation, w')
                 | (Inl (Exception e), w') \<Rightarrow>
                     (''Observation: There was an error executing the tool.\<newline>Error: '' @ e, w'))"
      using n d unfolding pas by simp
  qed
  show ?thesis using c1 c2 c3 c4 c5 c6 c7 by (intro conjI)
qed

theorem spaced_name_lookup_witness:
  "CHR '' '' \<in> set (name ex_raw_tool)
   \<and> py_split ''Thought: ok\<newline>Action: Medication Tool\<newline>Action Input: list'' ''\<newline>''
       = [''Thought: ok''] @ (''Action: '' @ name ex_raw_tool) # [''Action Input: list'']
   \<and> name (model_post_init ex_raw_tool) \<in> set (dict_keys (tools ex_agent))
   \<and> tool_call (ex_llm llm_stuck) ex_agent
         ''Thought: ok\<newline>Action: Medication Tool\<newline>Action Input: list'' 0
       = (''Observation: Tool 'Medication Tool' not found. Available tools: ['medication_tool']'', 0)
   \<and> CHR '' '' \<in> set (name ex_raw_trailing)
   \<and> py_split ''Action: Refill \<newline>Action Input: x'' ''\<newline>''
       = [] @ (''Action: '' @ name ex_raw_trailing) # [''Action Input: x'']
   \<and> tool_call (ex_llm llm_stuck) ex_agent_trailing ''Action: Refill \<newline>Action Input: x'' 0
       = (''Observation: Tool 'Refill' not found. Available tools: ['refill_']'', 0)"
proof -
  let ?r1 = "''Thought: ok\<newline>Action: Medication Tool\<newline>Action Input: list''"
  let ?r2 = "''Action: Refill \<newline>Action Input: x''"
  have r1: "tools ex_agent = format_tools (map model_post_init [ex_raw_tool])"
    by (simp add: ex_agent_def ex_tool_raw)
  have m1: "ex_raw_tool \<in> set [ex_raw_tool]" by simp
  have sp1: "CHR '' '' \<in> set (name ex_raw_tool)" by (simp add: ex_raw_tool_def)
  have l1: "py_split ?r1 ''\<newline>'' = [''Thought: ok''] @ (''Action: '' @ name ex_raw_tool) # [''Action Input: list'']"
    by (simp add: py_split_def ex_raw_tool_def)
  have p1: "\<forall>l\<in>set [''Action Input: list'']. \<not> startswith l ''Action:''" by simp
  note t1 = spaced_name_lookup[OF r1 m1 sp1 l1 p1, of "ex_llm llm_stuck" 0]
  have v1: "py_strip (py_replace (name ex_raw_tool) ''Action:'' '''') = ''Medication Tool''"
    by (simp add: ex_raw_tool_def py_strip_def py_isspace_def)
  have k1: "py_lower (py_strip ''Medication Tool'') = ''medication tool''" by code_simp
  have d1: "dict_keys (tools ex_agent) = [''medication_tool'']"
    by (simp add: tools_ex_agent dict_keys_def)
  have n1: "name (model_post_init ex_raw_tool) \<in> set (dict_keys (tools ex_agent))"
    using t1 by (rule conjunct1)
  have c1: "tool_call (ex_llm llm_stuck) ex_agent ?r1 0
       = (''Observation: Tool 'Medication Tool' not found. Available tools: ['medication_tool']'', 0)"
    using t1[THEN conjunct2, THEN conjunct2, THEN conjunct2, THEN conjunct2, THEN conjunct2,
        THEN conjunct1]
    unfolding v1 k1 repr_keys_ex_agent unfolding d1 by simp
  have r2: "tools ex_agent_trailing = format_tools (map model_post_init [ex_raw_trailing])"
    by (simp add: ex_agent_trailing_def ex_tool_trailing_raw)
  have m2: "ex_raw_trailing \<in> set [ex_raw_trailing]" by simp
  have sp2: "CHR '' '' \<in> set (name ex_raw_trailing)" by (simp add: ex_raw_trailing_def)
  have l2: "py_split ?r2 ''\<newline>'' = [] @ (''Action: '' @ name ex_raw_trailing) # [''Action Input: x'']"
    by (simp add: py_split_def ex_raw_trailing_def)
  have p2: "\<forall>l\<in>set [''Action Input: x'']. \<not> startswith l ''Action:''" by simp
  note t2 = spaced_name_lookup[OF r2 m2 sp2 l2 p2, of "ex_llm llm_stuck" 0]
  have v2: "py_strip (py_replace (name ex_raw_trailing) ''Action:'' '''') = ''Refill''"
    by (simp add: ex_raw_trailing_def py_strip_def py_isspace_def)
  have k2: "py_lower (py_strip ''Refill'') = ''refill''" by code_simp
  have d2: "dict_keys (tools ex_agent_trailing) = [''refill_'']"
    by (simp add: ex_agent_trailing_def format_tools_def dict_of_def dict_keys_def name_ex_tool_trailing)
  have q2: "py_repr_list [''refill_''] = ''['refill_']''" by code_simp
  have c2: "tool_call (ex_llm llm_stuck) ex_agent_trailing ?r2 0
       = (''Observation: Tool 'Refill' not found. Available tools: ['refill_']'', 0)"
    using t2[THEN conjunct2, THEN conjunct2, THEN conjunct2, THEN conjunct2, THEN conjunct2,
        THEN conjunct1]
    unfolding v2 k2 d2 q2 by simp
  show ?thesis using sp1 l1 n1 c1 sp2 l2 c2 by (simp only: simp_thms)
qed

end
